theory Spec2Isabelle
  imports Complex_Main
begin

section \<open>Values, errors and library operations used by \<open>src/model/t5.py\<close>\<close>

text \<open>
  Python exceptions are values: every \<open>raise\<close>, failed \<open>assert\<close> and failing library
  call of the source is an \<open>Inl\<close> branch of the model. Tensors are nested lists (a rank-2
  tensor is the list of its rows), token ids and indices are unbounded integers, embedding
  entries are reals (the rounding of floating-point arithmetic is not modelled).
\<close>

datatype error =
    AssertionError string
  | ValueError string
  | TypeError string
  | KeyError string
  | IndexError string
  | AttributeError string
  | RuntimeError string

definition ebind :: "error + 'a \<Rightarrow> ('a \<Rightarrow> error + 'b) \<Rightarrow> error + 'b" where
  "ebind r f = (case r of Inl e \<Rightarrow> Inl e | Inr v \<Rightarrow> f v)"

text \<open>Run a list of fallible computations in order; the first error wins.\<close>

fun collect :: "(error + 'a) list \<Rightarrow> error + 'a list" where
  "collect [] = Inr []"
| "collect (x # xs) =
     (case x of
        Inl e \<Rightarrow> Inl e
      | Inr v \<Rightarrow> (case collect xs of Inl e \<Rightarrow> Inl e | Inr vs \<Rightarrow> Inr (v # vs)))"

text \<open>
  The values a batch dictionary holds: a rank-1 integer tensor, a sequence of integer rows
  (a list of rank-1 tensors before padding, a rank-2 tensor after it), or a list of strings.
\<close>

datatype fieldval = Ints "int list" | IntSeqs "int list list" | Strs "string list"

type_synonym batch = "string \<rightharpoonup> fieldval"

fun len_field :: "fieldval \<Rightarrow> nat" where
  "len_field (Ints xs) = length xs"
| "len_field (IntSeqs xs) = length xs"
| "len_field (Strs xs) = length xs"

definition get_item :: "batch \<Rightarrow> string \<Rightarrow> error + fieldval" where
  "get_item b k = (case b k of None \<Rightarrow> Inl (KeyError k) | Some v \<Rightarrow> Inr v)"

definition get_seqs :: "batch \<Rightarrow> string \<Rightarrow> error + int list list" where
  "get_seqs b k =
     (case b k of
        None \<Rightarrow> Inl (KeyError k)
      | Some (IntSeqs xs) \<Rightarrow> Inr xs
      | Some _ \<Rightarrow> Inl (TypeError k))"

definition get_ints :: "batch \<Rightarrow> string \<Rightarrow> error + int list" where
  "get_ints b k =
     (case b k of
        None \<Rightarrow> Inl (KeyError k)
      | Some (Ints xs) \<Rightarrow> Inr xs
      | Some _ \<Rightarrow> Inl (TypeError k))"

subsection \<open>\<open>torch.nn.utils.rnn.pad_sequence\<close> with \<open>batch_first=True\<close>\<close>

definition max_len :: "'a list list \<Rightarrow> nat" where
  "max_len seqs = foldr (\<lambda>s m. max (length s) m) seqs 0"

definition pad_to :: "nat \<Rightarrow> 'a \<Rightarrow> 'a list \<Rightarrow> 'a list" where
  "pad_to n padding_value s = s @ replicate (n - length s) padding_value"

definition pad_sequence :: "int list list \<Rightarrow> int \<Rightarrow> error + int list list" where
  "pad_sequence seqs padding_value =
     (if seqs = [] then Inl (RuntimeError ''received an empty list of sequences'')
      else Inr (map (pad_to (max_len seqs) padding_value) seqs))"

text \<open>The masked assignment \<open>t[t == a] = b\<close> on a rank-2 tensor.\<close>

definition masked_fill_eq :: "int \<Rightarrow> int \<Rightarrow> int list list \<Rightarrow> int list list" where
  "masked_fill_eq a b t = map (map (\<lambda>x. if x = a then b else x)) t"

subsection \<open>\<open>nn.Embedding\<close>, \<open>dropout1d\<close>, \<open>leaky_relu\<close>, broadcasting addition\<close>

text \<open>
  \<open>nn.Embedding(num_embeddings, dim)\<close> holds a table of \<open>num_embeddings\<close> rows; looking an
  index up outside \<open>0 .. num_embeddings - 1\<close> raises \<open>IndexError\<close>.
\<close>

definition embedding_row :: "real list list \<Rightarrow> int \<Rightarrow> error + real list" where
  "embedding_row weight i =
     (if 0 \<le> i \<and> i < int (length weight) then Inr (weight ! nat i)
      else Inl (IndexError ''index out of range in self''))"

definition embedding :: "real list list \<Rightarrow> int list \<Rightarrow> error + real list list" where
  "embedding weight idxs = collect (map (embedding_row weight) idxs)"

definition embedding2 :: "real list list \<Rightarrow> int list list \<Rightarrow> error + real list list list" where
  "embedding2 weight idxs = collect (map (embedding weight) idxs)"

text \<open>
  \<open>nn.functional.dropout1d(x, p, training)\<close> on a rank-2 input of shape (channels, length):
  a no-op unless \<open>training\<close>; otherwise one Bernoulli draw per channel, \<open>keep c\<close>, decides
  whether the whole channel \<open>c\<close> is zeroed or rescaled by \<open>1 / (1 - p)\<close>. The draw is the
  explicit argument \<open>keep\<close>.
\<close>

definition dropout1d :: "real list list \<Rightarrow> real \<Rightarrow> bool \<Rightarrow> (nat \<Rightarrow> bool) \<Rightarrow> real list list" where
  "dropout1d x p training_mode keep =
     (if training_mode
      then map (\<lambda>c. map (\<lambda>v. v * ((if keep c then 1 else 0) / (1 - p))) (x ! c)) [0..<length x]
      else x)"

text \<open>
  The law of the draw: every channel is dropped with probability \<open>p\<close>, independently.
  \<open>mask_prob p ks\<close> is the probability of the keep-mask \<open>ks\<close> over \<open>length ks\<close> channels,
  \<open>all_masks n\<close> lists the masks over \<open>n\<close> channels, \<open>prob_of p n E\<close> is the probability of
  the event \<open>E\<close>.
\<close>

definition mask_prob :: "real \<Rightarrow> bool list \<Rightarrow> real" where
  "mask_prob p ks = prod_list (map (\<lambda>k. if k then 1 - p else p) ks)"

fun all_masks :: "nat \<Rightarrow> bool list list" where
  "all_masks 0 = [[]]"
| "all_masks (Suc n) = map ((#) True) (all_masks n) @ map ((#) False) (all_masks n)"

definition prob_of :: "real \<Rightarrow> nat \<Rightarrow> (bool list \<Rightarrow> bool) \<Rightarrow> real" where
  "prob_of p n E = sum_list (map (mask_prob p) (filter E (all_masks n)))"

definition leaky_relu :: "real \<Rightarrow> real" where
  "leaky_relu x = (if x > 0 then x else x * 0.01)"

text \<open>
  Elementwise operation with broadcasting along one axis: equal sizes pair up, a size-1
  axis is repeated, anything else is a shape error.
\<close>

definition broadcast2 :: "('a \<Rightarrow> 'b \<Rightarrow> error + 'c) \<Rightarrow> 'a list \<Rightarrow> 'b list \<Rightarrow> error + 'c list" where
  "broadcast2 f xs ys =
     (if length xs = length ys then collect (map (\<lambda>(x, y). f x y) (zip xs ys))
      else if length ys = 1 then collect (map (\<lambda>x. f x (hd ys)) xs)
      else if length xs = 1 then collect (map (\<lambda>y. f (hd xs) y) ys)
      else Inl (RuntimeError ''The size of tensor a must match the size of tensor b''))"

definition add_tensor3 ::
  "real list list list \<Rightarrow> real list list list \<Rightarrow> error + real list list list" where
  "add_tensor3 a b = broadcast2 (broadcast2 (broadcast2 (\<lambda>x y. Inr (x + y)))) a b"

text \<open>\<open>unsqueeze(dim=1)\<close> on a rank-2 tensor: shape (B, D) becomes (B, 1, D).\<close>

definition unsqueeze1 :: "'a list list \<Rightarrow> 'a list list list" where
  "unsqueeze1 t = map (\<lambda>row. [row]) t"

text \<open>\<open>np.array(xs).reshape((r, c))\<close> of a flat list, row-major.\<close>

definition reshape2 :: "'a list \<Rightarrow> nat \<Rightarrow> nat \<Rightarrow> error + 'a list list" where
  "reshape2 xs r c =
     (if length xs = r * c then Inr (map (\<lambda>i. take c (drop (i * c) xs)) [0..<r])
      else Inl (ValueError ''cannot reshape array''))"

text \<open>\<open>random.choice(xs)\<close>, the draw \<open>rnd\<close> made explicit; it raises on an empty list.\<close>

definition random_choice :: "'a list \<Rightarrow> nat \<Rightarrow> error + 'a" where
  "random_choice xs rnd =
     (if xs = [] then Inl (IndexError ''Cannot choose from an empty sequence'')
      else Inr (xs ! (rnd mod length xs)))"

text \<open>
  Python's \<open>int(re.search(digits, s).group())\<close> for the pattern of one or more decimal
  digits: the first maximal run of digits, read in base ten.
\<close>

definition is_digit :: "char \<Rightarrow> bool" where
  "is_digit c = (c \<in> set ''0123456789'')"

definition digit_val :: "char \<Rightarrow> int" where
  "digit_val c = int (of_char c) - 48"

definition first_number :: "string \<Rightarrow> error + int" where
  "first_number s =
     (let ds = takeWhile is_digit (dropWhile (\<lambda>c. \<not> is_digit c) s)
      in if ds = [] then Inl (AttributeError ''NoneType object has no attribute group'')
         else Inr (foldl (\<lambda>n c. 10 * n + digit_val c) 0 ds))"

section \<open>The collaborators: tokenizer, tasks, configuration\<close>

text \<open>
  What the fast tokenizer returns for one (input text, target text) pair: the fields of the
  \<open>BatchEncoding\<close> and, from \<open>encodings[0]\<close>, the word index of every input token
  (\<open>None\<close> where the token belongs to no word) and the special-tokens mask.
\<close>

record encoding =
  enc_input_ids :: "int list"
  enc_attention_mask :: "int list"
  enc_labels :: "int list"
  enc_word_ids :: "nat option list"
  enc_special_tokens_mask :: "int list"

text \<open>
  The tokenizer is a black box: its call with \<open>truncation=True\<close>, its decoding of one
  generated sequence with \<open>skip_special_tokens=True\<close>, and its pad id, an index into the
  vocabulary.
\<close>

record tokenizer =
  pad_token_id :: nat
  tok_call :: "string \<Rightarrow> string \<Rightarrow> encoding"
  tok_decode :: "int list \<Rightarrow> string"

text \<open>
  A task is called with the sample's fields as named arguments and returns the list of
  (input text, target text) pairs, or raises.
\<close>

type_synonym task = "(string \<times> string) list \<Rightarrow> error + (string \<times> string) list"

type_synonym sample = "(string \<times> string list) list"

record gen_config =
  num_return_sequences :: nat
  max_new_tokens :: nat
  num_beams :: nat
  no_repeat_ngram_size :: nat
  early_stopping :: bool

section \<open>\<open>UserEmbeds\<close>\<close>

text \<open>
  \<open>UserEmbeds.__init__\<close>: an \<open>nn.Embedding(n_users, dim_model)\<close> whose entries are drawn
  by the Xavier-uniform initialiser; \<open>init i j\<close> is the value drawn for row \<open>i\<close>, column \<open>j\<close>.
\<close>

definition UserEmbeds_init :: "nat \<Rightarrow> nat \<Rightarrow> (nat \<Rightarrow> nat \<Rightarrow> real) \<Rightarrow> real list list" where
  "UserEmbeds_init n_users dim_model init =
     map (\<lambda>i. map (\<lambda>j. init i j) [0..<dim_model]) [0..<n_users]"

definition dropout_p :: real where
  "dropout_p = 0.6"

text \<open>
  \<open>UserEmbeds.__call__\<close>: look the rows up, swap the two axes, drop whole channels, swap
  back, apply \<open>leaky_relu\<close>.
\<close>

definition UserEmbeds_call ::
  "real list list \<Rightarrow> bool \<Rightarrow> (nat \<Rightarrow> bool) \<Rightarrow> int list \<Rightarrow> error + real list list" where
  "UserEmbeds_call emb_weight training_mode keep user_idx =
     ebind (embedding emb_weight user_idx) (\<lambda>x.
       Inr (map (map leaky_relu)
              (transpose (dropout1d (transpose x) dropout_p training_mode keep))))"

section \<open>\<open>T5FineTuned\<close>\<close>

text \<open>
  The model object: the fields the methods read, the token embedding table \<open>shared\<close> of the
  underlying network, and its forward pass (returning the loss) and generation as black
  boxes that may raise.
\<close>

record T5FineTuned =
  training :: bool
  tokenizer :: tokenizer
  training_tasks :: "task list"
  eval_task :: "task option"
  n_users :: nat
  user_embeddings :: "real list list"
  shared :: "real list list"
  forward_loss :: "real list list list \<Rightarrow> fieldval \<Rightarrow> fieldval \<Rightarrow> error + real"
  generate :: "real list list list \<Rightarrow> fieldval \<Rightarrow> gen_config \<Rightarrow> error + int list list"

text \<open>
  \<open>T5FineTuned.__init__\<close>: \<open>base\<close> stands for what the superclass constructor and
  \<open>from_pretrained\<close> build (tokenizer, network); a fresh module is in training mode.
\<close>

definition T5FineTuned_init ::
  "T5FineTuned \<Rightarrow> nat \<Rightarrow> nat \<Rightarrow> (nat \<Rightarrow> nat \<Rightarrow> real) \<Rightarrow> task list \<Rightarrow> task option \<Rightarrow> T5FineTuned" where
  "T5FineTuned_init base d_model n init tasks ev =
     base\<lparr>training := True, training_tasks := tasks, eval_task := ev, n_users := n,
          user_embeddings := UserEmbeds_init n d_model init\<rparr>"

definition set_eval_task :: "T5FineTuned \<Rightarrow> task \<Rightarrow> T5FineTuned" where
  "set_eval_task m t = m\<lparr>eval_task := Some t\<rparr>"

subsection \<open>\<open>tokenize\<close>\<close>

record encoded_sequence =
  es_input_ids :: "int list"
  es_attention_mask :: "int list"
  es_labels :: "int list"
  es_user_idx :: int
  es_whole_word_ids :: "int option list"
  es_target_item :: string

text \<open>
  The two masked updates on the word-id array, whose entries are integers or \<open>None\<close>:
  \<open>+= 1\<close> where the token is not special (adding one to \<open>None\<close> raises), then the pad id
  where it is. A boolean mask of another length than the array raises.
\<close>

definition whole_word_ids_of ::
  "nat option list \<Rightarrow> int list \<Rightarrow> int \<Rightarrow> error + int option list" where
  "whole_word_ids_of wids special_mask pad =
     (if length special_mask \<noteq> length wids
      then Inl (IndexError ''boolean index did not match indexed array'')
      else ebind
        (collect (map (\<lambda>(w, s). if s \<noteq> 0 then Inr (map_option int w)
                        else (case w of None \<Rightarrow> Inl (TypeError ''unsupported operand type for +'')
                                       | Some n \<Rightarrow> Inr (Some (int n + 1))))
                   (zip wids special_mask)))
        (\<lambda>shifted. Inr (map (\<lambda>(w, s). if s \<noteq> 0 then Some pad else w)
                         (zip shifted special_mask))))"

definition dict_get :: "(string \<times> 'a) list \<Rightarrow> string \<Rightarrow> error + 'a" where
  "dict_get d k = (case map_of d k of None \<Rightarrow> Inl (KeyError k) | Some v \<Rightarrow> Inr v)"

text \<open>The body of the loop over the templates.\<close>

definition encode_template ::
  "tokenizer \<Rightarrow> (string \<times> string) list \<Rightarrow> string \<times> string \<Rightarrow> error + encoded_sequence" where
  "encode_template tk sample1 tpl =
     (let enc = tok_call tk (fst tpl) (snd tpl) in
      ebind (whole_word_ids_of (enc_word_ids enc) (enc_special_tokens_mask enc)
               (int (pad_token_id tk))) (\<lambda>wwi.
      ebind (dict_get sample1 ''user_id'') (\<lambda>uid.
      ebind (first_number uid) (\<lambda>uidx.
      ebind (dict_get sample1 ''target_item'') (\<lambda>tgt.
        Inr \<lparr>es_input_ids = enc_input_ids enc, es_attention_mask = enc_attention_mask enc,
             es_labels = enc_labels enc, es_user_idx = uidx, es_whole_word_ids = wwi,
             es_target_item = tgt\<rparr>)))))"

text \<open>\<open>{k: v[0] for k, v in sample.items()}\<close>\<close>

definition first_of_each :: "sample \<Rightarrow> error + (string \<times> string) list" where
  "first_of_each sample =
     collect (map (\<lambda>(k, v). if v = [] then Inl (IndexError ''list index out of range'')
                              else Inr (k, hd v)) sample)"

text \<open>
  \<open>tokenize\<close> returns \<open>merge_with(list, ...)\<close> of the encoded sequences: per field, the
  list of the values in template order. The model returns the encoded sequences in that
  order; \<open>merged_field\<close> reads one field of the merged dictionary. \<open>rnd\<close> is the draw of
  \<open>random.choice\<close>.
\<close>

definition call_task :: "task option \<Rightarrow> (string \<times> string) list \<Rightarrow> error + (string \<times> string) list" where
  "call_task t kwargs =
     (case t of None \<Rightarrow> Inl (TypeError ''NoneType object is not callable'')
              | Some f \<Rightarrow> f kwargs)"

definition tokenize :: "T5FineTuned \<Rightarrow> nat \<Rightarrow> sample \<Rightarrow> error + encoded_sequence list" where
  "tokenize m rnd sample =
     ebind (dict_get sample ''user_id'') (\<lambda>uids.
       if length uids \<noteq> 1 then Inl (AssertionError ''set batch_size to map fn to 1'')
       else
         ebind (first_of_each sample) (\<lambda>sample1.
         ebind (if training m then random_choice (map Some (training_tasks m)) rnd
                else Inr (eval_task m)) (\<lambda>t.
         ebind (call_task t sample1) (\<lambda>templates_list.
           collect (map (encode_template (tokenizer m) sample1) templates_list)))))"

definition merged_field :: "(encoded_sequence \<Rightarrow> 'a) \<Rightarrow> encoded_sequence list \<Rightarrow> 'a list" where
  "merged_field f encoded_sequence_list = map f encoded_sequence_list"

subsection \<open>\<open>prepare_input\<close>\<close>

definition ignore_index :: int where
  "ignore_index = - 100"

text \<open>
  The result dictionary is built key by key, in the order of the source; moving a tensor to
  the device does not change its entries.
\<close>

definition pad_field :: "T5FineTuned \<Rightarrow> batch \<Rightarrow> string \<Rightarrow> error + int list list" where
  "pad_field m b k =
     ebind (get_seqs b k) (\<lambda>seqs. pad_sequence seqs (int (pad_token_id (tokenizer m))))"

definition add_labels :: "T5FineTuned \<Rightarrow> batch \<Rightarrow> batch \<Rightarrow> error + batch" where
  "add_labels m b input_dict =
     (if b ''labels'' = None then Inr input_dict
      else ebind (pad_field m b ''labels'') (\<lambda>lm_labels.
             Inr (input_dict(''labels'' \<mapsto>
                    IntSeqs (masked_fill_eq (int (pad_token_id (tokenizer m))) ignore_index
                               lm_labels)))))"

definition add_target_item :: "T5FineTuned \<Rightarrow> batch \<Rightarrow> batch \<Rightarrow> error + batch" where
  "add_target_item m b input_dict =
     (if \<not> training m
      then ebind (get_item b ''target_item'') (\<lambda>t. Inr (input_dict(''target_item'' \<mapsto> t)))
      else Inr input_dict)"

definition prepare_input :: "T5FineTuned \<Rightarrow> batch \<Rightarrow> error + batch" where
  "prepare_input m b =
     ebind (pad_field m b ''input_ids'') (\<lambda>input_ids.
     ebind (pad_field m b ''attention_mask'') (\<lambda>attention_mask.
     ebind (pad_field m b ''whole_word_ids'') (\<lambda>whole_word_ids.
     ebind (get_ints b ''user_idx'') (\<lambda>user_idx.
     ebind (add_labels m b
              [''user_idx'' \<mapsto> Ints user_idx, ''input_ids'' \<mapsto> IntSeqs input_ids,
               ''attention_mask'' \<mapsto> IntSeqs attention_mask,
               ''whole_word_ids'' \<mapsto> IntSeqs whole_word_ids])
       (add_target_item m b)))))"

text \<open>Removing the pad positions of a padded row, the inverse the round trip is about.\<close>

definition strip_pad :: "int \<Rightarrow> int list \<Rightarrow> int list" where
  "strip_pad pad row = filter (\<lambda>t. t \<noteq> pad) row"

subsection \<open>\<open>_inject_personalization\<close>, \<open>train_step\<close>, \<open>valid_step\<close>\<close>

definition inject_personalization ::
  "T5FineTuned \<Rightarrow> (nat \<Rightarrow> bool) \<Rightarrow> real list list list \<Rightarrow> int list \<Rightarrow> error + real list list list" where
  "inject_personalization m keep token_inputs_embeds user_idxs =
     ebind (UserEmbeds_call (user_embeddings m) (training m) keep (map (\<lambda>u. u - 1) user_idxs))
       (\<lambda>user_embeds. add_tensor3 token_inputs_embeds (unsqueeze1 user_embeds))"

text \<open>
  \<open>ExperimentConfig.inject_personalization\<close> is defined outside this file: it is the
  argument \<open>cfg\<close>, the collection of phase names for which injection is enabled.
\<close>

definition embed_inputs ::
  "string \<Rightarrow> string list \<Rightarrow> T5FineTuned \<Rightarrow> (nat \<Rightarrow> bool) \<Rightarrow> batch \<Rightarrow> error + real list list list" where
  "embed_inputs phase cfg m keep b =
     ebind (get_seqs b ''input_ids'') (\<lambda>ids.
     ebind (embedding2 (shared m) ids) (\<lambda>inputs_embeds.
       if phase \<in> set cfg
       then ebind (get_ints b ''user_idx'') (\<lambda>u. inject_personalization m keep inputs_embeds u)
       else Inr inputs_embeds))"

definition run_forward :: "T5FineTuned \<Rightarrow> real list list list \<Rightarrow> batch \<Rightarrow> error + real" where
  "run_forward m inputs_embeds b =
     ebind (get_item b ''attention_mask'') (\<lambda>am.
     ebind (get_item b ''labels'') (\<lambda>lab.
       forward_loss m inputs_embeds am lab))"

definition train_step :: "string list \<Rightarrow> T5FineTuned \<Rightarrow> (nat \<Rightarrow> bool) \<Rightarrow> batch \<Rightarrow> error + real" where
  "train_step cfg m keep b =
     ebind (embed_inputs ''train'' cfg m keep b) (\<lambda>inputs_embeds.
       run_forward m inputs_embeds b)"

definition decoding_config :: gen_config where
  "decoding_config =
     \<lparr>num_return_sequences = 10, max_new_tokens = 50, num_beams = 30,
      no_repeat_ngram_size = 0, early_stopping = True\<rparr>"

text \<open>
  \<open>valid_step\<close> changes the caller's dictionary (\<open>batch.pop\<close>), so the model returns the
  dictionary after the call next to the outcome, also when the call raises.
\<close>

definition valid_step_body ::
  "string list \<Rightarrow> T5FineTuned \<Rightarrow> (nat \<Rightarrow> bool) \<Rightarrow> fieldval \<Rightarrow> batch
     \<Rightarrow> error + (string list list \<times> fieldval \<times> real)" where
  "valid_step_body cfg m keep target_text b =
     ebind (embed_inputs ''eval'' cfg m keep b) (\<lambda>inputs_embeds.
     ebind (run_forward m inputs_embeds b) (\<lambda>val_loss.
     ebind (get_item b ''attention_mask'') (\<lambda>am.
     ebind (generate m inputs_embeds am decoding_config) (\<lambda>beam_outputs.
       let generated_sents = map (tok_decode (tokenizer m)) beam_outputs in
       ebind (reshape2 generated_sents (len_field target_text)
                (num_return_sequences decoding_config)) (\<lambda>mapped_predictions.
         Inr (mapped_predictions, target_text, val_loss))))))"

definition valid_step ::
  "string list \<Rightarrow> T5FineTuned \<Rightarrow> (nat \<Rightarrow> bool) \<Rightarrow> batch
     \<Rightarrow> (error + (string list list \<times> fieldval \<times> real)) \<times> batch" where
  "valid_step cfg m keep b =
     (if eval_task m = None
      then (Inl (ValueError (''Model can't perform valid_step since no eval_task is set! '' @
                             ''Pass it when initializing the model or with `set_eval_task()`'')), b)
      else (case b ''target_item'' of
              None \<Rightarrow> (Inl (KeyError ''target_item''), b)
            | Some target_text \<Rightarrow>
                (valid_step_body cfg m keep target_text (b(''target_item'' := None)),
                 b(''target_item'' := None))))"

section \<open>Example objects\<close>

text \<open>A small tokenizer, model and batch on which the theorems below are run.\<close>

definition example_tokenizer :: tokenizer where
  "example_tokenizer =
     \<lparr>pad_token_id = 0,
      tok_call = (\<lambda>input_text target_text.
         \<lparr>enc_input_ids = [5, 6, 7, 1], enc_attention_mask = [1, 1, 1, 1],
          enc_labels = [9, 1], enc_word_ids = [Some 0, Some 0, Some 1, None],
          enc_special_tokens_mask = [0, 0, 0, 1]\<rparr>),
      tok_decode = (\<lambda>ids. if ids = [] then ''empty'' else ''item'')\<rparr>"

definition example_model :: T5FineTuned where
  "example_model =
     \<lparr>training = False, tokenizer = example_tokenizer, training_tasks = [],
      eval_task = Some (\<lambda>kwargs. Inr [(''input'', ''target'')]), n_users = 3,
      user_embeddings = [[1, - 100], [3, 4], [5, - 200]],
      shared = [[0, 0], [1, 1], [2, 2], [3, 3], [4, 4]],
      forward_loss = (\<lambda>inputs_embeds am lab. Inr (1 / 2)),
      generate = (\<lambda>inputs_embeds am c.
         Inr (replicate (length inputs_embeds * num_return_sequences c) [7, 1]))\<rparr>"

definition example_raw_batch :: batch where
  "example_raw_batch =
     [''input_ids'' \<mapsto> IntSeqs [[2, 3, 1], [4, 1]],
      ''attention_mask'' \<mapsto> IntSeqs [[1, 1, 1], [1, 1]],
      ''whole_word_ids'' \<mapsto> IntSeqs [[1, 2, 0], [1, 0]],
      ''user_idx'' \<mapsto> Ints [1, 3],
      ''labels'' \<mapsto> IntSeqs [[9, 1], [8, 0, 4, 1]],
      ''target_item'' \<mapsto> Strs [''item_42'', ''item_7'']]"

definition example_prepared :: batch where
  "example_prepared =
     [''user_idx'' \<mapsto> Ints [1, 3], ''input_ids'' \<mapsto> IntSeqs [[2, 3, 1], [4, 1, 0]],
      ''attention_mask'' \<mapsto> IntSeqs [[1, 1, 1], [1, 1, 0]],
      ''whole_word_ids'' \<mapsto> IntSeqs [[1, 2, 0], [1, 0, 0]],
      ''labels'' \<mapsto> IntSeqs [[9, 1, - 100, - 100], [8, - 100, 4, 1]],
      ''target_item'' \<mapsto> Strs [''item_42'', ''item_7'']]"

definition example_sample :: sample where
  "example_sample = [(''user_id'', [''u_3'']), (''target_item'', [''item_42''])]"

definition example_encoded :: encoded_sequence where
  "example_encoded =
     \<lparr>es_input_ids = [5, 6, 7, 1], es_attention_mask = [1, 1, 1, 1], es_labels = [9, 1],
      es_user_idx = 3, es_whole_word_ids = [Some 1, Some 1, Some 2, Some 0],
      es_target_item = ''item_42''\<rparr>"


section \<open>Facts about the error monad and the library operations\<close>

lemma ebind_Inr_iff: "ebind r f = Inr y \<longleftrightarrow> (\<exists>v. r = Inr v \<and> f v = Inr y)"
  by (cases r) (simp_all add: ebind_def)

lemma ebind_Inr [simp]: "ebind (Inr v) f = f v"
  by (simp add: ebind_def)

lemma ebind_Inl [simp]: "ebind (Inl e) f = Inl e"
  by (simp add: ebind_def)

lemma get_seqs_Inr_iff: "get_seqs b k = Inr xs \<longleftrightarrow> b k = Some (IntSeqs xs)"
  by (auto simp: get_seqs_def split: option.splits fieldval.splits)

lemma get_ints_Inr_iff: "get_ints b k = Inr xs \<longleftrightarrow> b k = Some (Ints xs)"
  by (auto simp: get_ints_def split: option.splits fieldval.splits)

lemma get_item_Inr_iff: "get_item b k = Inr v \<longleftrightarrow> b k = Some v"
  by (auto simp: get_item_def split: option.splits)

lemma pad_sequence_Inr_iff:
  "pad_sequence seqs pad = Inr t \<longleftrightarrow> seqs \<noteq> [] \<and> t = map (pad_to (max_len seqs) pad) seqs"
  by (auto simp: pad_sequence_def)

lemma pad_field_Inr_iff:
  "pad_field m b k = Inr t \<longleftrightarrow>
     (\<exists>seqs. b k = Some (IntSeqs seqs) \<and> seqs \<noteq> [] \<and>
        t = map (pad_to (max_len seqs) (int (pad_token_id (tokenizer m)))) seqs)"
  by (auto simp: pad_field_def ebind_Inr_iff get_seqs_Inr_iff pad_sequence_Inr_iff)

lemma length_le_max_len: "s \<in> set seqs \<Longrightarrow> length s \<le> max_len seqs"
  by (induction seqs) (auto simp: max_len_def)

lemma length_pad_to: "length s \<le> n \<Longrightarrow> length (pad_to n pad s) = n"
  by (simp add: pad_to_def)

lemma strip_pad_pad_to: "pad \<notin> set s \<Longrightarrow> strip_pad pad (pad_to n pad s) = s"
  by (auto simp: strip_pad_def pad_to_def filter_id_conv)

lemma add_target_item_other:
  "add_target_item m b d2 = Inr d \<Longrightarrow> k \<noteq> ''target_item'' \<Longrightarrow> d k = d2 k"
  by (auto simp: add_target_item_def ebind_Inr_iff split: if_splits)

lemma add_labels_other:
  "add_labels m b d1 = Inr d2 \<Longrightarrow> k \<noteq> ''labels'' \<Longrightarrow> d2 k = d1 k"
  by (auto simp: add_labels_def ebind_Inr_iff split: if_splits)

lemma add_labels_labels:
  "add_labels m b d1 = Inr d2 \<Longrightarrow> b ''labels'' = Some v \<Longrightarrow>
     \<exists>labs. v = IntSeqs labs \<and> labs \<noteq> [] \<and>
       d2 ''labels'' = Some (IntSeqs (masked_fill_eq (int (pad_token_id (tokenizer m))) ignore_index
          (map (pad_to (max_len labs) (int (pad_token_id (tokenizer m)))) labs)))"
  by (auto simp: add_labels_def ebind_Inr_iff pad_field_Inr_iff split: if_splits)

lemma prepare_input_input_ids:
  assumes "prepare_input m b = Inr d"
  shows "\<exists>ids. b ''input_ids'' = Some (IntSeqs ids) \<and> ids \<noteq> [] \<and>
           d ''input_ids'' =
             Some (IntSeqs (map (pad_to (max_len ids) (int (pad_token_id (tokenizer m)))) ids))"
proof -
  from assms obtain pids pam pww u d2 where
    1: "pad_field m b ''input_ids'' = Inr pids" and
    2: "add_labels m b [''user_idx'' \<mapsto> Ints u, ''input_ids'' \<mapsto> IntSeqs pids,
               ''attention_mask'' \<mapsto> IntSeqs pam, ''whole_word_ids'' \<mapsto> IntSeqs pww] = Inr d2" and
    3: "add_target_item m b d2 = Inr d"
    unfolding prepare_input_def ebind_Inr_iff by blast
  have "d ''input_ids'' = Some (IntSeqs pids)"
    using add_target_item_other[OF 3, of "''input_ids''"] add_labels_other[OF 2, of "''input_ids''"]
    by simp
  with 1 show ?thesis
    by (auto simp: pad_field_Inr_iff)
qed

lemma prepare_input_labels:
  assumes "prepare_input m b = Inr d" and "b ''labels'' = Some v"
  shows "\<exists>labs. v = IntSeqs labs \<and> labs \<noteq> [] \<and>
       d ''labels'' = Some (IntSeqs (masked_fill_eq (int (pad_token_id (tokenizer m))) ignore_index
          (map (pad_to (max_len labs) (int (pad_token_id (tokenizer m)))) labs)))"
proof -
  from assms obtain d1 d2 where
    2: "add_labels m b d1 = Inr d2" and
    3: "add_target_item m b d2 = Inr d"
    unfolding prepare_input_def ebind_Inr_iff by blast
  have "d ''labels'' = d2 ''labels''"
    using add_target_item_other[OF 3, of "''labels''"] by simp
  with add_labels_labels[OF 2 assms(2)] show ?thesis
    by simp
qed

lemma masked_fill_eq_no_old:
  "a \<noteq> b \<Longrightarrow> row \<in> set (masked_fill_eq a b t) \<Longrightarrow> a \<notin> set row"
  by (auto simp: masked_fill_eq_def)

lemma nth_pad_to:
  "j < n \<Longrightarrow> pad_to n pad s ! j = (if j < length s then s ! j else pad)"
  by (auto simp: pad_to_def nth_append)

lemma example_prepare: "prepare_input example_model example_raw_batch = Inr example_prepared"
  by (simp add: prepare_input_def pad_field_def add_labels_def add_target_item_def
      example_model_def example_raw_batch_def example_tokenizer_def get_seqs_def get_ints_def
      get_item_def pad_sequence_def max_len_def pad_to_def masked_fill_eq_def ignore_index_def
      example_prepared_def)

section \<open>Batch assembly\<close>

text \<open>
  C9. Round trip through batch assembly: \<open>prepare_input\<close> pads every row of \<open>input_ids\<close>
  on the right with the tokenizer's pad id up to the longest row, and for every sample whose
  unpadded row contains no pad id, removing the pad positions of the padded row gives the
  unpadded row back.
\<close>

theorem prepare_input_pad_strip_roundtrip:
  assumes "prepare_input m b = Inr d" and "b ''input_ids'' = Some (IntSeqs ids)"
  shows "\<exists>padded. d ''input_ids'' = Some (IntSeqs padded) \<and> length padded = length ids \<and>
           (\<forall>i<length ids.
              length (padded ! i) = max_len ids \<and>
              padded ! i = ids ! i @ replicate (max_len ids - length (ids ! i))
                                       (int (pad_token_id (tokenizer m))) \<and>
              (int (pad_token_id (tokenizer m)) \<notin> set (ids ! i) \<longrightarrow>
                 strip_pad (int (pad_token_id (tokenizer m))) (padded ! i) = ids ! i))"
proof -
  let ?pad = "int (pad_token_id (tokenizer m))"
  from prepare_input_input_ids[OF assms(1)] assms(2)
  have d: "d ''input_ids'' = Some (IntSeqs (map (pad_to (max_len ids) ?pad) ids))"
    by auto
  have "length (pad_to (max_len ids) ?pad (ids ! i)) = max_len ids" if "i < length ids" for i
    using that by (simp add: length_pad_to length_le_max_len)
  moreover have "strip_pad ?pad (pad_to (max_len ids) ?pad (ids ! i)) = ids ! i"
    if "?pad \<notin> set (ids ! i)" for i
    using that by (rule strip_pad_pad_to)
  ultimately show ?thesis
    using d by (simp add: pad_to_def)
qed

theorem prepare_input_pad_strip_roundtrip_witness:
  "prepare_input example_model example_raw_batch = Inr example_prepared \<and>
   example_raw_batch ''input_ids'' = Some (IntSeqs [[2, 3, 1], [4, 1]]) \<and>
   example_prepared ''input_ids'' = Some (IntSeqs [[2, 3, 1], [4, 1, 0]]) \<and>
   strip_pad 0 ([[2, 3, 1], [4, 1, 0]] ! 1) = [4, 1]"
proof -
  have h: "example_raw_batch ''input_ids'' = Some (IntSeqs [[2, 3, 1], [4, 1]])"
    by (simp add: example_raw_batch_def)
  have p: "example_prepared ''input_ids'' = Some (IntSeqs [[2, 3, 1], [4, 1, 0]])"
    by (simp add: example_prepared_def)
  have pad: "int (pad_token_id (tokenizer example_model)) = 0"
    by (simp add: example_model_def example_tokenizer_def)
  from prepare_input_pad_strip_roundtrip[OF example_prepare h]
  obtain padded where a: "example_prepared ''input_ids'' = Some (IntSeqs padded)"
    and b: "\<forall>i<length [[2, 3, 1], [4, 1 :: int]].
          length (padded ! i) = max_len [[2, 3, 1], [4, 1 :: int]] \<and>
          padded ! i = [[2, 3, 1], [4, 1]] ! i @
            replicate (max_len [[2, 3, 1], [4, 1 :: int]] - length ([[2, 3, 1], [4, 1 :: int]] ! i))
              (int (pad_token_id (tokenizer example_model))) \<and>
          (int (pad_token_id (tokenizer example_model)) \<notin> set ([[2, 3, 1], [4, 1]] ! i) \<longrightarrow>
           strip_pad (int (pad_token_id (tokenizer example_model))) (padded ! i) =
             [[2, 3, 1], [4, 1]] ! i)"
    by blast
  from a p have eq: "padded = [[2, 3, 1], [4, 1, 0]]"
    by simp
  have "1 < length [[2, 3, 1], [4, 1 :: int]]"
    by simp
  with b have "int (pad_token_id (tokenizer example_model)) \<notin> set ([[2, 3, 1], [4, 1]] ! 1) \<longrightarrow>
           strip_pad (int (pad_token_id (tokenizer example_model))) (padded ! 1) =
             [[2, 3, 1], [4, 1]] ! 1"
    by blast
  then have "strip_pad 0 ([[2, 3, 1], [4, 1, 0]] ! 1) = [4, 1]"
    unfolding eq pad by simp
  with example_prepare h p show ?thesis
    by simp
qed

text \<open>
  C4. When the batch has labels, the label tensor \<open>prepare_input\<close> returns is the padded
  label rows with every position equal to the pad id replaced by \<open>-100\<close>: an original
  label different from the pad id is kept, every other position (padding, or a label equal
  to the pad id) holds \<open>-100\<close>, and no position holds the tokenizer's pad id.
\<close>

theorem prepare_input_labels_never_pad:
  assumes "prepare_input m b = Inr d" and "b ''labels'' \<noteq> None"
  shows "\<exists>labs t. b ''labels'' = Some (IntSeqs labs) \<and> d ''labels'' = Some (IntSeqs t) \<and>
           length t = length labs \<and>
           (\<forall>i<length labs. length (t ! i) = max_len labs \<and>
              (\<forall>j<max_len labs.
                 t ! i ! j =
                   (if j < length (labs ! i) \<and> labs ! i ! j \<noteq> int (pad_token_id (tokenizer m))
                    then labs ! i ! j else - 100))) \<and>
           (\<forall>row\<in>set t. int (pad_token_id (tokenizer m)) \<notin> set row)"
proof -
  let ?pad = "int (pad_token_id (tokenizer m))"
  from assms(2) obtain v where v: "b ''labels'' = Some v" by blast
  from prepare_input_labels[OF assms(1) v] obtain labs where
    labs: "b ''labels'' = Some (IntSeqs labs)" and
    d: "d ''labels'' = Some (IntSeqs (masked_fill_eq ?pad ignore_index
          (map (pad_to (max_len labs) ?pad) labs)))"
    using v by blast
  let ?t = "masked_fill_eq ?pad ignore_index (map (pad_to (max_len labs) ?pad) labs)"
  have ne: "?pad \<noteq> ignore_index"
    by (simp add: ignore_index_def)
  have len: "length ?t = length labs"
    by (simp add: masked_fill_eq_def)
  have rows: "length (?t ! i) = max_len labs \<and>
              (\<forall>j<max_len labs.
                 ?t ! i ! j = (if j < length (labs ! i) \<and> labs ! i ! j \<noteq> ?pad
                              then labs ! i ! j else - 100))"
    if "i < length labs" for i
    using that
    by (simp add: masked_fill_eq_def length_pad_to length_le_max_len nth_pad_to ignore_index_def)
  have nopad: "\<forall>row\<in>set ?t. ?pad \<notin> set row"
    using masked_fill_eq_no_old[OF ne] by blast
  show ?thesis
    using labs d len rows nopad by blast
qed

theorem prepare_input_labels_never_pad_witness:
  "prepare_input example_model example_raw_batch = Inr example_prepared \<and>
   example_raw_batch ''labels'' \<noteq> None \<and>
   example_prepared ''labels'' = Some (IntSeqs [[9, 1, - 100, - 100], [8, - 100, 4, 1]]) \<and>
   int (pad_token_id (tokenizer example_model)) \<notin> set [9, 1, - 100, - 100] \<and>
   int (pad_token_id (tokenizer example_model)) \<notin> set [8, - 100, 4, 1]"
proof -
  have h: "example_raw_batch ''labels'' \<noteq> None"
    by (simp add: example_raw_batch_def)
  have p: "example_prepared ''labels'' = Some (IntSeqs [[9, 1, - 100, - 100], [8, - 100, 4, 1]])"
    by (simp add: example_prepared_def)
  from prepare_input_labels_never_pad[OF example_prepare h] p
  have "\<forall>row\<in>set [[9, 1, - 100, - 100], [8, - 100, 4, 1]].
          int (pad_token_id (tokenizer example_model)) \<notin> set row"
    by auto
  then have "int (pad_token_id (tokenizer example_model)) \<notin> set [9, 1, - 100, - 100] \<and>
             int (pad_token_id (tokenizer example_model)) \<notin> set [8, - 100, 4, 1]"
    by simp
  with example_prepare h p show ?thesis
    by simp
qed

section \<open>The evaluation step\<close>

lemma reshape2_Inr_iff:
  "reshape2 xs r c = Inr t \<longleftrightarrow>
     length xs = r * c \<and> t = map (\<lambda>i. take c (drop (i * c) xs)) [0..<r]"
  by (auto simp: reshape2_def)

lemma valid_step_body_Inr_iff:
  "valid_step_body cfg m keep target_text b = Inr res \<longleftrightarrow>
     (\<exists>e loss am beams.
        embed_inputs ''eval'' cfg m keep b = Inr e \<and> run_forward m e b = Inr loss \<and>
        b ''attention_mask'' = Some am \<and> generate m e am decoding_config = Inr beams \<and>
        length beams = len_field target_text * 10 \<and>
        res = (map (\<lambda>i. take 10 (drop (i * 10) (map (tok_decode (tokenizer m)) beams)))
                 [0..<len_field target_text], target_text, loss))"
  by (auto simp: valid_step_body_def ebind_Inr_iff get_item_Inr_iff reshape2_Inr_iff Let_def
      decoding_config_def)

lemma valid_step_Inr_iff:
  "valid_step cfg m keep b = (Inr res, b') \<longleftrightarrow>
     (\<exists>tgt. eval_task m \<noteq> None \<and> b ''target_item'' = Some tgt \<and>
        b' = b(''target_item'' := None) \<and>
        valid_step_body cfg m keep tgt (b(''target_item'' := None)) = Inr res)"
  by (auto simp: valid_step_def split: option.splits)

lemma concat_chunks:
  "length xs = r * c \<Longrightarrow> concat (map (\<lambda>i. take c (drop (i * c) xs)) [0..<r]) = xs"
proof (induction r arbitrary: xs rule: nat.induct)
  case zero
  then show ?case by simp
next
  case (Suc r)
  have "concat (map (\<lambda>i. take c (drop (i * c) xs)) [0..<Suc r]) =
        concat (map (\<lambda>i. take c (drop (i * c) xs)) [0..<r]) @ take c (drop (r * c) xs)"
    by simp
  also have "concat (map (\<lambda>i. take c (drop (i * c) xs)) [0..<r]) =
        concat (map (\<lambda>i. take c (drop (i * c) (take (r * c) xs))) [0..<r])"
  proof -
    have "take c (drop (i * c) xs) = take c (drop (i * c) (take (r * c) xs))" if "i < r" for i
    proof -
      from that have "i * c + c \<le> r * c"
        by (metis Suc_leI mult_Suc mult_le_mono1 add.commute)
      then show ?thesis
        by (simp add: drop_take min_def)
    qed
    then show ?thesis
      by (intro arg_cong[where f = concat] map_cong) auto
  qed
  also have "\<dots> = take (r * c) xs"
    using Suc.prems by (intro Suc.IH) simp
  also have "take c (drop (r * c) xs) = drop (r * c) xs"
    using Suc.prems by simp
  finally show ?case by simp
qed

lemma chunk_bound: "i < r \<Longrightarrow> i * c + c \<le> r * (c::nat)"
  by (metis Suc_leI mult_Suc mult_le_mono1 add.commute)

lemma length_chunk:
  "length xs = r * c \<Longrightarrow> i < r \<Longrightarrow> length (take c (drop (i * c) xs)) = c"
  using chunk_bound[of i r c] by simp

lemma nth_chunk:
  "length xs = r * c \<Longrightarrow> i < r \<Longrightarrow> j < c \<Longrightarrow> take c (drop (i * c) xs) ! j = xs ! (i * c + j)"
  using chunk_bound[of i r c] by simp

lemmas example_defs = example_model_def example_tokenizer_def example_prepared_def

lemma example_embed:
  "embed_inputs ''eval'' [''train'', ''eval''] example_model (\<lambda>c. True)
     (example_prepared(''target_item'' := None)) =
   Inr [[[3, 1], [4, 2], [2, 0]], [[9, 2], [6, - 1], [5, - 2]]]"
  by (simp add: embed_inputs_def example_defs get_seqs_def get_ints_def embedding2_def
      embedding_def embedding_row_def inject_personalization_def UserEmbeds_call_def
      dropout1d_def leaky_relu_def add_tensor3_def broadcast2_def unsqueeze1_def)

lemma example_forward:
  "run_forward example_model e (example_prepared(''target_item'' := None)) = Inr (1 / 2)"
  by (simp add: run_forward_def example_defs get_item_def)

lemma example_generate:
  "generate example_model [[[3, 1], [4, 2], [2, 0]], [[9, 2], [6, - 1], [5, - 2]]] am
        \<lparr>num_return_sequences = 10, max_new_tokens = 50, num_beams = 30,
         no_repeat_ngram_size = 0, early_stopping = True\<rparr> = Inr (replicate 20 [7, 1])"
  by (simp add: example_defs)

text \<open>
  C5. The evaluation step calls \<open>generate\<close> with the fixed decoding configuration (10
  returned sequences per input, 30 beams, at most 50 new tokens, no n-gram repetition
  constraint, early stopping). Whenever it returns, for a target-item list of length N the
  prediction groups have shape (N, 10): N groups of exactly 10 decoded candidates, group
  \<open>i\<close> holding the decoded sequences \<open>10 i .. 10 i + 9\<close> in generation order. And it
  does return, with the popped targets and the loss of the forward pass, whenever the
  evaluation task is set, the targets are in the batch, embedding and forward pass succeed
  and \<open>generate\<close> returns N * 10 sequences.
\<close>

theorem valid_step_prediction_groups:
  "(\<forall>preds tgt loss b'.
      valid_step cfg m keep b = (Inr (preds, tgt, loss), b') \<longrightarrow>
      (\<exists>e am beams.
         embed_inputs ''eval'' cfg m keep (b(''target_item'' := None)) = Inr e \<and>
         generate m e am
           \<lparr>num_return_sequences = 10, max_new_tokens = 50, num_beams = 30,
            no_repeat_ngram_size = 0, early_stopping = True\<rparr> = Inr beams \<and>
         b ''target_item'' = Some tgt \<and>
         length beams = len_field tgt * 10 \<and>
         length preds = len_field tgt \<and>
         (\<forall>i<len_field tgt. length (preds ! i) = 10 \<and>
            (\<forall>j<10. preds ! i ! j = tok_decode (tokenizer m) (beams ! (i * 10 + j)))) \<and>
         concat preds = map (tok_decode (tokenizer m)) beams)) \<and>
   (\<forall>tgt e loss am beams.
      eval_task m \<noteq> None \<and> b ''target_item'' = Some tgt \<and>
      embed_inputs ''eval'' cfg m keep (b(''target_item'' := None)) = Inr e \<and>
      run_forward m e (b(''target_item'' := None)) = Inr loss \<and>
      b ''attention_mask'' = Some am \<and>
      generate m e am
        \<lparr>num_return_sequences = 10, max_new_tokens = 50, num_beams = 30,
         no_repeat_ngram_size = 0, early_stopping = True\<rparr> = Inr beams \<and>
      length beams = len_field tgt * 10 \<longrightarrow>
      (\<exists>preds. valid_step cfg m keep b = (Inr (preds, tgt, loss), b(''target_item'' := None))))"
proof (intro conjI allI impI)
  fix preds tgt loss b'
  assume "valid_step cfg m keep b = (Inr (preds, tgt, loss), b')"
  then obtain t where t: "b ''target_item'' = Some t"
    and body: "valid_step_body cfg m keep t (b(''target_item'' := None)) = Inr (preds, tgt, loss)"
    unfolding valid_step_Inr_iff by blast
  let ?dec = "tok_decode (tokenizer m)"
  from body obtain e am beams where
    e: "embed_inputs ''eval'' cfg m keep (b(''target_item'' := None)) = Inr e" and
    g: "generate m e am decoding_config = Inr beams" and
    len: "length beams = len_field t * 10" and
    res: "(preds, tgt, loss) =
            (map (\<lambda>i. take 10 (drop (i * 10) (map ?dec beams))) [0..<len_field t], t, loss)"
    unfolding valid_step_body_Inr_iff by blast
  from res have tt: "tgt = t" and
    preds: "preds = map (\<lambda>i. take 10 (drop (i * 10) (map ?dec beams))) [0..<len_field t]"
    by simp_all
  have l2: "length (map ?dec beams) = len_field t * 10"
    using len by simp
  have rows: "length (preds ! i) = 10 \<and>
            (\<forall>j<10. preds ! i ! j = ?dec (beams ! (i * 10 + j)))" if "i < len_field tgt" for i
  proof -
    from that tt have i: "i < len_field t" by simp
    have "i * 10 + j < length beams" if "j < 10" for j
      using i that len by simp
    then show ?thesis
      using nth_chunk[OF l2 i] length_chunk[OF l2 i] i by (simp add: preds)
  qed
  have cc: "concat preds = map ?dec beams"
    unfolding preds using l2 by (rule concat_chunks)
  show "\<exists>e am beams.
         embed_inputs ''eval'' cfg m keep (b(''target_item'' := None)) = Inr e \<and>
         generate m e am
           \<lparr>num_return_sequences = 10, max_new_tokens = 50, num_beams = 30,
            no_repeat_ngram_size = 0, early_stopping = True\<rparr> = Inr beams \<and>
         b ''target_item'' = Some tgt \<and>
         length beams = len_field tgt * 10 \<and>
         length preds = len_field tgt \<and>
         (\<forall>i<len_field tgt. length (preds ! i) = 10 \<and>
            (\<forall>j<10. preds ! i ! j = ?dec (beams ! (i * 10 + j)))) \<and>
         concat preds = map ?dec beams"
    using e g[unfolded decoding_config_def] t tt len rows cc
    by (intro exI[of _ e] exI[of _ am] exI[of _ beams]) (simp add: preds)
next
  fix tgt e loss am beams
  assume a: "eval_task m \<noteq> None \<and> b ''target_item'' = Some tgt \<and>
      embed_inputs ''eval'' cfg m keep (b(''target_item'' := None)) = Inr e \<and>
      run_forward m e (b(''target_item'' := None)) = Inr loss \<and>
      b ''attention_mask'' = Some am \<and>
      generate m e am
        \<lparr>num_return_sequences = 10, max_new_tokens = 50, num_beams = 30,
         no_repeat_ngram_size = 0, early_stopping = True\<rparr> = Inr beams \<and>
      length beams = len_field tgt * 10"
  then have "valid_step_body cfg m keep tgt (b(''target_item'' := None)) =
      Inr (map (\<lambda>i. take 10 (drop (i * 10) (map (tok_decode (tokenizer m)) beams)))
             [0..<len_field tgt], tgt, loss)"
    unfolding valid_step_body_Inr_iff by (auto simp: decoding_config_def)
  with a show "\<exists>preds. valid_step cfg m keep b = (Inr (preds, tgt, loss), b(''target_item'' := None))"
    unfolding valid_step_Inr_iff by blast
qed

theorem valid_step_prediction_groups_witness:
  "eval_task example_model \<noteq> None \<and>
   example_prepared ''target_item'' = Some (Strs [''item_42'', ''item_7'']) \<and>
   embed_inputs ''eval'' [''train'', ''eval''] example_model (\<lambda>c. True)
     (example_prepared(''target_item'' := None)) =
     Inr [[[3, 1], [4, 2], [2, 0]], [[9, 2], [6, - 1], [5, - 2]]] \<and>
   run_forward example_model [[[3, 1], [4, 2], [2, 0]], [[9, 2], [6, - 1], [5, - 2]]]
     (example_prepared(''target_item'' := None)) = Inr (1 / 2) \<and>
   example_prepared ''attention_mask'' = Some (IntSeqs [[1, 1, 1], [1, 1, 0]]) \<and>
   generate example_model [[[3, 1], [4, 2], [2, 0]], [[9, 2], [6, - 1], [5, - 2]]]
     (IntSeqs [[1, 1, 1], [1, 1, 0]])
     \<lparr>num_return_sequences = 10, max_new_tokens = 50, num_beams = 30,
      no_repeat_ngram_size = 0, early_stopping = True\<rparr> = Inr (replicate 20 [7, 1]) \<and>
   length (replicate 20 [7, 1 :: int]) = len_field (Strs [''item_42'', ''item_7'']) * 10 \<and>
   (\<exists>preds. valid_step [''train'', ''eval''] example_model (\<lambda>c. True) example_prepared =
      (Inr (preds, Strs [''item_42'', ''item_7''], 1 / 2),
       example_prepared(''target_item'' := None)) \<and>
      length preds = 2 \<and> concat preds = replicate 20 ''item'')"
proof -
  let ?b = "example_prepared"
  let ?e = "[[[3, 1], [4, 2], [2, 0]], [[9, 2], [6, - 1], [5, - 2 :: real]]]"
  let ?am = "IntSeqs [[1, 1, 1], [1, 1, 0]]"
  let ?cfg = "[''train'', ''eval'']"
  have h: "eval_task example_model \<noteq> None \<and>
      ?b ''target_item'' = Some (Strs [''item_42'', ''item_7'']) \<and>
      embed_inputs ''eval'' ?cfg example_model (\<lambda>c. True) (?b(''target_item'' := None)) = Inr ?e \<and>
      run_forward example_model ?e (?b(''target_item'' := None)) = Inr (1 / 2) \<and>
      ?b ''attention_mask'' = Some ?am \<and>
      generate example_model ?e ?am
        \<lparr>num_return_sequences = 10, max_new_tokens = 50, num_beams = 30,
         no_repeat_ngram_size = 0, early_stopping = True\<rparr> = Inr (replicate 20 [7, 1]) \<and>
      length (replicate 20 [7, 1 :: int]) = len_field (Strs [''item_42'', ''item_7'']) * 10"
    using example_embed example_forward example_generate
    by (simp add: example_defs)
  note inst = valid_step_prediction_groups[of ?cfg example_model "\<lambda>c. True" ?b]
  from inst h obtain preds where v: "valid_step ?cfg example_model (\<lambda>c. True) ?b =
      (Inr (preds, Strs [''item_42'', ''item_7''], 1 / 2), ?b(''target_item'' := None))"
    by blast
  from inst v obtain e am beams where
    e: "embed_inputs ''eval'' ?cfg example_model (\<lambda>c. True) (?b(''target_item'' := None)) = Inr e"
    and g: "generate example_model e am
           \<lparr>num_return_sequences = 10, max_new_tokens = 50, num_beams = 30,
            no_repeat_ngram_size = 0, early_stopping = True\<rparr> = Inr beams"
    and l: "length preds = len_field (Strs [''item_42'', ''item_7''])"
    and c: "concat preds = map (tok_decode (tokenizer example_model)) beams"
    by blast
  from e example_embed have "e = ?e" by simp
  with g example_generate[of am] have "beams = replicate 20 [7, 1]" by simp
  with c have "concat preds = replicate 20 ''item''"
    by (simp add: example_defs)
  with v l h show ?thesis
    by simp
qed

text \<open>
  C6. If the personalization-injection flag excludes \<open>eval\<close>, the outcome of the evaluation
  step (prediction groups, target strings, loss, or the error) and the batch it leaves are
  the same for any two user-embedding tables, and for any two dropout draws, all other
  inputs and state being equal.
\<close>

theorem valid_step_ignores_user_embeddings:
  assumes "''eval'' \<notin> set cfg"
  shows "valid_step cfg (m\<lparr>user_embeddings := W1\<rparr>) keep1 b =
         valid_step cfg (m\<lparr>user_embeddings := W2\<rparr>) keep2 b"
proof -
  have "valid_step_body cfg (m\<lparr>user_embeddings := W1\<rparr>) keep1 t b' =
        valid_step_body cfg (m\<lparr>user_embeddings := W2\<rparr>) keep2 t b'" for t b'
    using assms by (simp add: valid_step_body_def embed_inputs_def run_forward_def)
  then show ?thesis
    by (simp add: valid_step_def split: option.splits)
qed

theorem valid_step_ignores_user_embeddings_witness:
  "''eval'' \<notin> set [''train''] \<and>
   valid_step [''train''] (example_model\<lparr>user_embeddings := [[0, 0], [0, 0], [0, 0]]\<rparr>)
     (\<lambda>c. True) example_prepared =
   valid_step [''train''] (example_model\<lparr>user_embeddings := [[7, 8], [9, 10], [11, 12]]\<rparr>)
     (\<lambda>c. False) example_prepared"
  using valid_step_ignores_user_embeddings[where cfg = "[''train'']" and m = example_model
      and ?W1.0 = "[[0, 0], [0, 0], [0, 0]]" and ?keep1.0 = "\<lambda>c. True" and b = example_prepared
      and ?W2.0 = "[[7, 8], [9, 10], [11, 12]]" and ?keep2.0 = "\<lambda>c. False"]
  by simp

lemma example_valid_step:
  "valid_step [''train'', ''eval''] example_model (\<lambda>c. True) example_prepared =
     (Inr ([[''item'', ''item'', ''item'', ''item'', ''item'', ''item'', ''item'', ''item'', ''item'', ''item''],
            [''item'', ''item'', ''item'', ''item'', ''item'', ''item'', ''item'', ''item'', ''item'', ''item'']],
           Strs [''item_42'', ''item_7''], 1 / 2),
      example_prepared(''target_item'' := None))"
proof -
  have t: "example_prepared ''target_item'' = Some (Strs [''item_42'', ''item_7''])"
    by (simp add: example_prepared_def)
  have ev: "eval_task example_model \<noteq> None"
    by (simp add: example_model_def)
  have am: "get_item (example_prepared(''target_item'' := None)) ''attention_mask'' =
            Inr (IntSeqs [[1, 1, 1], [1, 1, 0]])"
    by (simp add: get_item_def example_prepared_def)
  have dec: "tok_decode (tokenizer example_model) [7, 1] = ''item''"
    by (simp add: example_model_def example_tokenizer_def)
  have r20: "replicate 20 ''item'' = replicate 10 ''item'' @ replicate 10 ''item''"
    by (simp add: replicate_add[symmetric])
  have rs: "reshape2 (replicate 20 ''item'') (Suc (Suc 0)) 10 = Inr [replicate 10 ''item'', replicate 10 ''item'']"
    unfolding r20 by (simp add: reshape2_def upt_rec[of 0] upt_rec[of 1] numeral_2_eq_2)
  have r10: "replicate 10 ''item'' =
     [''item'', ''item'', ''item'', ''item'', ''item'', ''item'', ''item'', ''item'', ''item'', ''item'']"
    by (simp add: numeral_eq_Suc)
  have body: "valid_step_body [''train'', ''eval''] example_model (\<lambda>c. True)
        (Strs [''item_42'', ''item_7'']) (example_prepared(''target_item'' := None)) =
      Inr ([replicate 10 ''item'', replicate 10 ''item''], Strs [''item_42'', ''item_7''], 1 / 2)"
    unfolding valid_step_body_def example_embed example_forward am Let_def
    by (simp add: decoding_config_def example_generate dec rs)
  show ?thesis
    using t ev body by (simp add: valid_step_def r10 split: option.splits)
qed

text \<open>
  C10. With an evaluation task set, the evaluation step removes the \<open>target_item\<close> entry
  from the caller's batch dictionary: after the call the key is absent and every other
  entry is what it was. The step returns, with exactly the removed entry as the second
  component of its result, whenever the entry was there, embedding and forward pass succeed
  and \<open>generate\<close> yields ten sequences per target; and whenever it returns, the second
  component is the removed entry.
\<close>

theorem valid_step_pops_target_item:
  assumes "eval_task m \<noteq> None"
  shows "snd (valid_step cfg m keep b) = b(''target_item'' := None) \<and>
         snd (valid_step cfg m keep b) ''target_item'' = None \<and>
         (\<forall>k. k \<noteq> ''target_item'' \<longrightarrow> snd (valid_step cfg m keep b) k = b k) \<and>
         (\<forall>preds tgt loss. fst (valid_step cfg m keep b) = Inr (preds, tgt, loss) \<longrightarrow>
            b ''target_item'' = Some tgt) \<and>
         (\<forall>tgt e loss am beams.
            b ''target_item'' = Some tgt \<and>
            embed_inputs ''eval'' cfg m keep (b(''target_item'' := None)) = Inr e \<and>
            run_forward m e (b(''target_item'' := None)) = Inr loss \<and>
            b ''attention_mask'' = Some am \<and>
            generate m e am decoding_config = Inr beams \<and>
            length beams = len_field tgt * 10 \<longrightarrow>
            (\<exists>preds. valid_step cfg m keep b =
               (Inr (preds, tgt, loss), b(''target_item'' := None))))"
proof -
  have 1: "snd (valid_step cfg m keep b) = b(''target_item'' := None)"
    using assms by (auto simp: valid_step_def split: option.splits)
  have 2: "b ''target_item'' = Some tgt"
    if "fst (valid_step cfg m keep b) = Inr (preds, tgt, loss)" for preds tgt loss
  proof -
    from that have "valid_step cfg m keep b = (Inr (preds, tgt, loss), snd (valid_step cfg m keep b))"
      by (metis prod.collapse)
    then show ?thesis
      unfolding valid_step_Inr_iff valid_step_body_Inr_iff by auto
  qed
  have 3: "\<exists>preds. valid_step cfg m keep b = (Inr (preds, tgt, loss), b(''target_item'' := None))"
    if "b ''target_item'' = Some tgt \<and>
        embed_inputs ''eval'' cfg m keep (b(''target_item'' := None)) = Inr e \<and>
        run_forward m e (b(''target_item'' := None)) = Inr loss \<and>
        b ''attention_mask'' = Some am \<and>
        generate m e am decoding_config = Inr beams \<and>
        length beams = len_field tgt * 10" for tgt e loss am beams
  proof -
    from that have "valid_step_body cfg m keep tgt (b(''target_item'' := None)) =
        Inr (map (\<lambda>i. take 10 (drop (i * 10) (map (tok_decode (tokenizer m)) beams)))
               [0..<len_field tgt], tgt, loss)"
      unfolding valid_step_body_Inr_iff by auto
    with that assms show ?thesis
      unfolding valid_step_Inr_iff by blast
  qed
  from 1 have absent: "snd (valid_step cfg m keep b) ''target_item'' = None"
    by simp
  from 1 have frame: "\<forall>k. k \<noteq> ''target_item'' \<longrightarrow> snd (valid_step cfg m keep b) k = b k"
    by simp
  from 1 absent frame 2 3 show ?thesis
    by blast
qed

theorem valid_step_pops_target_item_witness:
  "eval_task example_model \<noteq> None \<and>
   example_prepared ''target_item'' = Some (Strs [''item_42'', ''item_7'']) \<and>
   valid_step [''train'', ''eval''] example_model (\<lambda>c. True) example_prepared =
     (Inr ([[''item'', ''item'', ''item'', ''item'', ''item'', ''item'', ''item'', ''item'', ''item'', ''item''],
            [''item'', ''item'', ''item'', ''item'', ''item'', ''item'', ''item'', ''item'', ''item'', ''item'']],
           Strs [''item_42'', ''item_7''], 1 / 2),
      example_prepared(''target_item'' := None)) \<and>
   snd (valid_step [''train'', ''eval''] example_model (\<lambda>c. True) example_prepared) ''target_item''
     = None \<and>
   snd (valid_step [''train'', ''eval''] example_model (\<lambda>c. True) example_prepared) ''labels''
     = example_prepared ''labels'' \<and>
   snd (valid_step [''train'', ''eval''] example_model (\<lambda>c. True) example_prepared) ''input_ids''
     = Some (IntSeqs [[2, 3, 1], [4, 1, 0]])"
proof -
  let ?cfg = "[''train'', ''eval'']"
  let ?e = "[[[3, 1], [4, 2], [2, 0]], [[9, 2], [6, - 1], [5, - 2 :: real]]]"
  let ?am = "IntSeqs [[1, 1, 1], [1, 1, 0]]"
  have h: "eval_task example_model \<noteq> None"
    by (simp add: example_defs)
  have t: "example_prepared ''target_item'' = Some (Strs [''item_42'', ''item_7''])"
    by (simp add: example_defs)
  note inst = valid_step_pops_target_item[OF h, of ?cfg "\<lambda>c. True" example_prepared]
  have hyps: "example_prepared ''target_item'' = Some (Strs [''item_42'', ''item_7'']) \<and>
      embed_inputs ''eval'' ?cfg example_model (\<lambda>c. True)
        (example_prepared(''target_item'' := None)) = Inr ?e \<and>
      run_forward example_model ?e (example_prepared(''target_item'' := None)) = Inr (1 / 2) \<and>
      example_prepared ''attention_mask'' = Some ?am \<and>
      generate example_model ?e ?am decoding_config = Inr (replicate 20 [7, 1]) \<and>
      length (replicate 20 [7, 1 :: int]) = len_field (Strs [''item_42'', ''item_7'']) * 10"
    using example_embed example_forward example_generate
    by (simp add: example_defs decoding_config_def)
  from inst hyps obtain preds where
    v: "valid_step ?cfg example_model (\<lambda>c. True) example_prepared =
          (Inr (preds, Strs [''item_42'', ''item_7''], 1 / 2),
           example_prepared(''target_item'' := None))"
    by blast
  from v example_valid_step have
    v': "valid_step ?cfg example_model (\<lambda>c. True) example_prepared =
     (Inr ([[''item'', ''item'', ''item'', ''item'', ''item'', ''item'', ''item'', ''item'', ''item'', ''item''],
            [''item'', ''item'', ''item'', ''item'', ''item'', ''item'', ''item'', ''item'', ''item'', ''item'']],
           Strs [''item_42'', ''item_7''], 1 / 2),
      example_prepared(''target_item'' := None))"
    by simp
  from inst have s: "snd (valid_step ?cfg example_model (\<lambda>c. True) example_prepared) =
          example_prepared(''target_item'' := None)"
    by blast
  have l: "(example_prepared(''target_item'' := None)) ''input_ids'' =
      Some (IntSeqs [[2, 3, 1], [4, 1, 0]])"
    by (simp add: example_prepared_def)
  show ?thesis
    using h t v' l unfolding s by simp
qed

section \<open>Tokenization\<close>

lemma collect_map_Inr_id: "collect (map Inr vs) = Inr vs"
  by (induction vs) simp_all

lemma collect_InrD: "collect xs = Inr vs \<Longrightarrow> xs = map Inr vs"
proof (induction xs arbitrary: vs)
  case Nil
  then show ?case by simp
next
  case (Cons x xs)
  from Cons.prems obtain v vs' where x: "x = Inr v" and c: "collect xs = Inr vs'"
    and vs: "vs = v # vs'"
    by (auto split: sum.splits)
  from Cons.IH[OF c] x vs show ?case
    by simp
qed

lemma collect_Inr_iff: "collect xs = Inr vs \<longleftrightarrow> xs = map Inr vs"
  using collect_InrD collect_map_Inr_id by blast

lemma collect_map_Inr:
  "collect (map f xs) = Inr vs \<longleftrightarrow> length vs = length xs \<and> (\<forall>i<length xs. f (xs ! i) = Inr (vs ! i))"
  unfolding collect_Inr_iff
  by (auto simp: list_eq_iff_nth_eq)

lemma whole_word_ids_of_Inr:
  assumes "whole_word_ids_of wids special_mask pad = Inr ws"
  shows "length special_mask = length wids" "length ws = length wids"
    "\<And>j. j < length wids \<Longrightarrow> special_mask ! j \<noteq> 0 \<Longrightarrow> ws ! j = Some pad"
    "\<And>j. j < length wids \<Longrightarrow> special_mask ! j = 0 \<Longrightarrow>
        \<exists>w. wids ! j = Some w \<and> ws ! j = Some (int w + 1)"
proof -
  let ?f = "\<lambda>(w, s). if s \<noteq> (0::int) then Inr (map_option int w)
                        else (case w of None \<Rightarrow> Inl (TypeError ''unsupported operand type for +'')
                                       | Some n \<Rightarrow> Inr (Some (int n + 1)))"
  from assms show len: "length special_mask = length wids"
    by (auto simp: whole_word_ids_of_def split: if_splits)
  with assms obtain shifted where
    sh: "collect (map ?f (zip wids special_mask)) = Inr shifted" and
    ws: "ws = map (\<lambda>(w, s). if s \<noteq> 0 then Some pad else w) (zip shifted special_mask)"
    by (auto simp: whole_word_ids_of_def ebind_Inr_iff)
  from sh have ls: "length shifted = length wids"
    and el: "\<And>i. i < length wids \<Longrightarrow> ?f (wids ! i, special_mask ! i) = Inr (shifted ! i)"
    using len by (auto simp: collect_map_Inr)
  show "length ws = length wids"
    using ws ls len by simp
  show "ws ! j = Some pad" if "j < length wids" "special_mask ! j \<noteq> 0" for j
    using that ws ls len by simp
  show "\<exists>w. wids ! j = Some w \<and> ws ! j = Some (int w + 1)"
    if "j < length wids" "special_mask ! j = 0" for j
    using that ws ls len el[of j] by (auto split: option.splits)
qed

lemma tokenize_Inr:
  assumes "tokenize m rnd sample = Inr out"
  obtains sample1 templates_list where
    "length out = length templates_list"
    "\<And>i. i < length templates_list \<Longrightarrow>
       encode_template (tokenizer m) sample1 (templates_list ! i) = Inr (out ! i)"
  using assms
  by (auto simp: tokenize_def ebind_Inr_iff collect_map_Inr split: if_splits)

lemma encode_template_Inr:
  assumes "encode_template tk sample1 tpl = Inr es"
  shows "es_input_ids es = enc_input_ids (tok_call tk (fst tpl) (snd tpl))"
    "whole_word_ids_of (enc_word_ids (tok_call tk (fst tpl) (snd tpl)))
       (enc_special_tokens_mask (tok_call tk (fst tpl) (snd tpl))) (int (pad_token_id tk)) =
     Inr (es_whole_word_ids es)"
  using assms
  by (auto simp: encode_template_def Let_def ebind_Inr_iff)

lemma example_tokenize: "tokenize example_model 0 example_sample = Inr [example_encoded]"
  by (simp add: tokenize_def example_sample_def example_model_def example_tokenizer_def
      dict_get_def first_of_each_def call_task_def encode_template_def whole_word_ids_of_def
      first_number_def is_digit_def digit_val_def example_encoded_def)

text \<open>
  C3. For every encoded sequence \<open>tokenize\<close> produces (the tokenizer returning one word
  index per input token), the whole-word-id sequence is as long as the input-token-id
  sequence; every position the tokenizer marks as special holds the tokenizer's pad id,
  and every other position holds the tokenizer's word index plus one, a value of at least 1.
\<close>

theorem tokenize_whole_word_ids:
  assumes "tokenize m rnd sample = Inr out"
    and "\<forall>a b. length (enc_word_ids (tok_call (tokenizer m) a b)) =
                length (enc_input_ids (tok_call (tokenizer m) a b))"
  shows "\<forall>es\<in>set out. \<exists>input_text target_text.
           es_input_ids es = enc_input_ids (tok_call (tokenizer m) input_text target_text) \<and>
           length (es_whole_word_ids es) = length (es_input_ids es) \<and>
           (\<forall>j<length (es_input_ids es).
              (enc_special_tokens_mask (tok_call (tokenizer m) input_text target_text) ! j \<noteq> 0 \<longrightarrow>
                 es_whole_word_ids es ! j = Some (int (pad_token_id (tokenizer m)))) \<and>
              (enc_special_tokens_mask (tok_call (tokenizer m) input_text target_text) ! j = 0 \<longrightarrow>
                 (\<exists>w. enc_word_ids (tok_call (tokenizer m) input_text target_text) ! j = Some w \<and>
                      es_whole_word_ids es ! j = Some (int w + 1) \<and>
                      1 \<le> int w + 1)))"
proof
  fix es
  assume "es \<in> set out"
  then obtain i where i: "i < length out" "es = out ! i"
    by (auto simp: in_set_conv_nth)
  from tokenize_Inr[OF assms(1)] i obtain sample1 tpl where
    enc: "encode_template (tokenizer m) sample1 tpl = Inr es"
    by metis
  let ?enc = "tok_call (tokenizer m) (fst tpl) (snd tpl)"
  note e = encode_template_Inr[OF enc]
  note w = whole_word_ids_of_Inr[OF e(2)]
  from assms(2) have len: "length (enc_word_ids ?enc) = length (enc_input_ids ?enc)"
    by blast
  have "es_input_ids es = enc_input_ids ?enc \<and>
           length (es_whole_word_ids es) = length (es_input_ids es) \<and>
           (\<forall>j<length (es_input_ids es).
              (enc_special_tokens_mask ?enc ! j \<noteq> 0 \<longrightarrow>
                 es_whole_word_ids es ! j = Some (int (pad_token_id (tokenizer m)))) \<and>
              (enc_special_tokens_mask ?enc ! j = 0 \<longrightarrow>
                 (\<exists>w. enc_word_ids ?enc ! j = Some w \<and>
                      es_whole_word_ids es ! j = Some (int w + 1) \<and>
                      1 \<le> int w + 1)))"
    using e(1) w(2) w(3) w(4) len by (auto simp del: One_nat_def) 
  then show "\<exists>input_text target_text.
           es_input_ids es = enc_input_ids (tok_call (tokenizer m) input_text target_text) \<and>
           length (es_whole_word_ids es) = length (es_input_ids es) \<and>
           (\<forall>j<length (es_input_ids es).
              (enc_special_tokens_mask (tok_call (tokenizer m) input_text target_text) ! j \<noteq> 0 \<longrightarrow>
                 es_whole_word_ids es ! j = Some (int (pad_token_id (tokenizer m)))) \<and>
              (enc_special_tokens_mask (tok_call (tokenizer m) input_text target_text) ! j = 0 \<longrightarrow>
                 (\<exists>w. enc_word_ids (tok_call (tokenizer m) input_text target_text) ! j = Some w \<and>
                      es_whole_word_ids es ! j = Some (int w + 1) \<and>
                      1 \<le> int w + 1)))"
    by blast
qed

theorem tokenize_whole_word_ids_witness:
  "tokenize example_model 0 example_sample = Inr [example_encoded] \<and>
   (\<forall>a b. length (enc_word_ids (tok_call (tokenizer example_model) a b)) =
           length (enc_input_ids (tok_call (tokenizer example_model) a b))) \<and>
   length (es_whole_word_ids example_encoded) = length (es_input_ids example_encoded) \<and>
   es_whole_word_ids example_encoded = [Some 1, Some 1, Some 2, Some 0]"
proof -
  have wf: "\<forall>a b. length (enc_word_ids (tok_call (tokenizer example_model) a b)) =
                  length (enc_input_ids (tok_call (tokenizer example_model) a b))"
    by (simp add: example_model_def example_tokenizer_def)
  from tokenize_whole_word_ids[OF example_tokenize wf]
  have "length (es_whole_word_ids example_encoded) = length (es_input_ids example_encoded)"
    by auto
  with example_tokenize wf show ?thesis
    by (simp add: example_encoded_def)
qed

lemma tokenize_no_eval_task:
  assumes "eval_task m = None" and "\<not> training m"
  shows "tokenize m rnd sample =
     ebind (dict_get sample ''user_id'') (\<lambda>uids.
       if length uids \<noteq> 1 then Inl (AssertionError ''set batch_size to map fn to 1'')
       else ebind (first_of_each sample) (\<lambda>sample1.
              Inl (TypeError ''NoneType object is not callable'')))"
  using assms by (simp add: tokenize_def call_task_def cong: if_cong)

text \<open>
  C2. With no evaluation task set and the model not in training mode, the evaluation step
  fails at once, before it touches the batch, with the configuration error whose message
  names \<open>set_eval_task()\<close>. \<open>tokenize\<close> has no such check: on a batch-of-one sample it
  selects the unset task, and calling it raises \<open>TypeError\<close> (\<open>NoneType\<close> is not callable)
  where the evaluation step raises its \<open>ValueError\<close>. Both are run here on one model
  without an evaluation task.
\<close>

theorem tokenize_no_eval_task_type_error:
  "eval_task (example_model\<lparr>eval_task := None\<rparr>) = None \<and>
   \<not> training (example_model\<lparr>eval_task := None\<rparr>) \<and>
   tokenize (example_model\<lparr>eval_task := None\<rparr>) 0 example_sample =
     Inl (TypeError ''NoneType object is not callable'') \<and>
   valid_step [''train'', ''eval''] (example_model\<lparr>eval_task := None\<rparr>) (\<lambda>c. True)
       example_prepared =
     (Inl (ValueError (''Model can't perform valid_step since no eval_task is set! '' @
                       ''Pass it when initializing the model or with `set_eval_task()`'')),
      example_prepared)"
proof -
  let ?m = "example_model\<lparr>eval_task := None\<rparr>"
  have a: "eval_task ?m = None" by simp
  have b: "\<not> training ?m" by (simp add: example_model_def)
  have c: "tokenize ?m 0 example_sample = Inl (TypeError ''NoneType object is not callable'')"
    unfolding tokenize_no_eval_task[OF a b]
    by (simp add: dict_get_def first_of_each_def example_sample_def)
  have d: "valid_step [''train'', ''eval''] ?m (\<lambda>c. True) example_prepared =
     (Inl (ValueError (''Model can't perform valid_step since no eval_task is set! '' @
                       ''Pass it when initializing the model or with `set_eval_task()`'')),
      example_prepared)"
    by (simp add: valid_step_def)
  from a b c d show ?thesis
    by blast
qed

section \<open>User embeddings and personalization injection\<close>

lemma transpose_rect:
  assumes "xs \<noteq> []" and "\<And>i. i < length xs \<Longrightarrow> length (xs ! i) = n"
  shows "transpose xs = map (\<lambda>i. map (\<lambda>j. xs ! j ! i) [0..<length xs]) [0..<n]"
  using assms by (intro transpose_rectangle) auto

lemma transpose_map_rows:
  assumes "0 < D" and "\<And>b. b < B \<Longrightarrow> length (x ! b) = D" and "length x = B"
  shows "transpose (map (\<lambda>c. map (g c) (transpose x ! c)) [0..<length (transpose x)]) =
         map (\<lambda>b. map (\<lambda>d. g d (x ! b ! d)) [0..<D]) [0..<B]"
proof (cases "B = 0")
  case True
  with assms(3) show ?thesis by simp
next
  case False
  with assms(3) have ne: "x \<noteq> []" by auto
  have t: "transpose x = map (\<lambda>d. map (\<lambda>b. x ! b ! d) [0..<B]) [0..<D]"
    using transpose_rect[OF ne, of D] assms(2,3) by simp
  let ?T = "map (\<lambda>c. map (g c) (transpose x ! c)) [0..<length (transpose x)]"
  have T: "?T = map (\<lambda>d. map (\<lambda>b. g d (x ! b ! d)) [0..<B]) [0..<D]"
    unfolding t by (auto simp: comp_def)
  have Tne: "?T \<noteq> []"
    unfolding T using assms(1) by simp
  have "transpose ?T = map (\<lambda>i. map (\<lambda>j. ?T ! j ! i) [0..<length ?T]) [0..<B]"
    by (rule transpose_rect[OF Tne]) (simp add: T)
  also have "\<dots> = map (\<lambda>b. map (\<lambda>d. g d (x ! b ! d)) [0..<D]) [0..<B]"
    unfolding T by simp
  finally show ?thesis .
qed

lemma map_nth_rows:
  assumes "\<And>b. b < B \<Longrightarrow> length (x ! b) = D" and "length x = B"
  shows "map (\<lambda>b. map (\<lambda>d. f (x ! b ! d)) [0..<D]) [0..<B] = map (map f) x"
  using assms by (auto simp: list_eq_iff_nth_eq)

lemma embedding_row_Inr_iff:
  "embedding_row W i = Inr r \<longleftrightarrow> 0 \<le> i \<and> i < int (length W) \<and> r = W ! nat i"
  by (auto simp: embedding_row_def)

lemma embedding_Inr_iff:
  "embedding W idxs = Inr x \<longleftrightarrow>
     (\<forall>i\<in>set idxs. 0 \<le> i \<and> i < int (length W)) \<and> x = map (\<lambda>i. W ! nat i) idxs"
proof -
  have "embedding W idxs = Inr x \<longleftrightarrow>
        length x = length idxs \<and> (\<forall>k<length idxs. embedding_row W (idxs ! k) = Inr (x ! k))"
    by (simp add: embedding_def collect_map_Inr)
  also have "\<dots> \<longleftrightarrow> (\<forall>i\<in>set idxs. 0 \<le> i \<and> i < int (length W)) \<and> x = map (\<lambda>i. W ! nat i) idxs"
    unfolding embedding_row_Inr_iff all_set_conv_all_nth list_eq_iff_nth_eq
    by auto
  finally show ?thesis .
qed



lemma UserEmbeds_call_eval:
  assumes "\<forall>r\<in>set W. length r = D" and "0 < D" and "embedding W idx = Inr x"
  shows "UserEmbeds_call W False keep idx = Inr (map (map leaky_relu) x)"
    and "UserEmbeds_call W True keep idx =
           Inr (map (\<lambda>b. map (\<lambda>d. leaky_relu (x ! b ! d * ((if keep d then 1 else 0) / (1 - dropout_p))))
                        [0..<D]) [0..<length idx])"
proof -
  from assms(3) have x: "x = map (\<lambda>i. W ! nat i) idx"
    and ok: "\<forall>i\<in>set idx. 0 \<le> i \<and> i < int (length W)"
    by (simp_all add: embedding_Inr_iff)
  have len: "length x = length idx"
    by (simp add: x)
  have rows: "length (x ! b) = D" if "b < length idx" for b
  proof -
    from that ok have "0 \<le> idx ! b \<and> idx ! b < int (length W)"
      using nth_mem by blast
    then have "nat (idx ! b) < length W" by (simp add: nat_less_iff)
    with assms(1) that show ?thesis
      by (simp add: x)
  qed
  have a: "map (\<lambda>c. map (\<lambda>v. v) (transpose x ! c)) [0..<length (transpose x)] = transpose x"
    by (simp add: map_nth)
  have b: "map (\<lambda>b. map (\<lambda>d. x ! b ! d) [0..<D]) [0..<length idx] = x"
    using map_nth_rows[OF rows len, of "\<lambda>v. v"] by simp
  have "transpose (map (\<lambda>c. map (\<lambda>v. v) (transpose x ! c)) [0..<length (transpose x)]) =
         map (\<lambda>b. map (\<lambda>d. x ! b ! d) [0..<D]) [0..<length idx]"
    by (rule transpose_map_rows[OF assms(2) rows len])
  then have tt: "transpose (transpose x) = x"
    unfolding a b .
  show "UserEmbeds_call W False keep idx = Inr (map (map leaky_relu) x)"
    using assms(3) tt by (simp add: UserEmbeds_call_def dropout1d_def)
  have "transpose (dropout1d (transpose x) dropout_p True keep) =
        map (\<lambda>b. map (\<lambda>d. x ! b ! d * ((if keep d then 1 else 0) / (1 - dropout_p))) [0..<D])
          [0..<length idx]"
    unfolding dropout1d_def if_True
    by (rule transpose_map_rows[OF assms(2) rows len])
  then show "UserEmbeds_call W True keep idx =
           Inr (map (\<lambda>b. map (\<lambda>d. leaky_relu (x ! b ! d * ((if keep d then 1 else 0) / (1 - dropout_p))))
                        [0..<D]) [0..<length idx])"
    using assms(3) by (simp add: UserEmbeds_call_def comp_def)
qed

lemma mask_prob_simps:
  "mask_prob p [] = 1"
  "mask_prob p (k # ks) = (if k then 1 - p else p) * mask_prob p ks"
  by (simp_all add: mask_prob_def)

lemma sum_all_masks: "sum_list (map (mask_prob p) (all_masks n)) = 1"
proof (induction n)
  case 0
  then show ?case by (simp add: mask_prob_simps)
next
  case (Suc n)
  have "sum_list (map (mask_prob p) (all_masks (Suc n))) =
        (1 - p) * sum_list (map (mask_prob p) (all_masks n)) +
        p * sum_list (map (mask_prob p) (all_masks n))"
    by (simp add: mask_prob_simps comp_def sum_list_const_mult)
  with Suc show ?case by simp
qed

lemma prob_of_drop: "d < n \<Longrightarrow> prob_of p n (\<lambda>ks. \<not> ks ! d) = p"
proof (induction n arbitrary: d)
  case 0
  then show ?case by simp
next
  case (Suc n)
  show ?case
  proof (cases d)
    case 0
    have "prob_of p (Suc n) (\<lambda>ks. \<not> ks ! 0) = p * sum_list (map (mask_prob p) (all_masks n))"
      by (simp add: prob_of_def filter_map comp_def mask_prob_simps sum_list_const_mult)
    with 0 show ?thesis by (simp add: sum_all_masks)
  next
    case (Suc d')
    with Suc.prems have d': "d' < n" by simp
    have "prob_of p (Suc n) (\<lambda>ks. \<not> ks ! Suc d') =
          (1 - p) * prob_of p n (\<lambda>ks. \<not> ks ! d') + p * prob_of p n (\<lambda>ks. \<not> ks ! d')"
      by (simp add: prob_of_def filter_map comp_def mask_prob_simps sum_list_const_mult)
    with Suc.IH[OF d'] Suc show ?thesis
      by (simp add: algebra_simps)
  qed
qed

lemma leaky_relu_0: "leaky_relu 0 = 0"
  by (simp add: leaky_relu_def)

text \<open>
  C7. \<open>UserEmbeds\<close> on a table with rows of \<open>D > 0\<close> entries, the lookup having
  succeeded. In inference mode the dropout is a pass-through: the result is \<open>leaky_relu\<close>
  applied to every entry of the looked-up rows. In training mode the result has one row of
  \<open>D\<close> entries per sample, entry \<open>d\<close> of sample \<open>b\<close> being \<open>leaky_relu\<close> of the
  looked-up entry rescaled by \<open>1 / (1 - 0.6)\<close> when the draw keeps dimension \<open>d\<close> and of
  zero when it drops it; the draw depends on \<open>d\<close> only, so a dropped dimension is zero for
  every sample of the call. Under the law of the draw, each dimension is dropped with
  probability 0.6.
\<close>

theorem UserEmbeds_dropout_leaky_relu:
  assumes "list_all (\<lambda>r. length r = D) W" and "0 < D" and "embedding W idx = Inr x"
  shows "UserEmbeds_call W False keep idx = Inr (map (map leaky_relu) x) \<and>
         (\<exists>out. UserEmbeds_call W True keep idx = Inr out \<and> length out = length idx \<and>
            (\<forall>b<length idx. length (out ! b) = D \<and>
               (\<forall>d<D. out ! b ! d = leaky_relu (if keep d then x ! b ! d / (1 - 0.6) else 0) \<and>
                       (\<not> keep d \<longrightarrow> out ! b ! d = 0)))) \<and>
         (\<forall>d<D. prob_of dropout_p D (\<lambda>ks. \<not> ks ! d) = 0.6)"
proof -
  from assms(1) have rect: "\<forall>r\<in>set W. length r = D"
    by (simp add: list_all_iff)
  note ev = UserEmbeds_call_eval[OF rect assms(2,3), of keep]
  let ?out = "map (\<lambda>b. map (\<lambda>d. leaky_relu (x ! b ! d * ((if keep d then 1 else 0) / (1 - dropout_p))))
                        [0..<D]) [0..<length idx]"
  have el: "?out ! b ! d = leaky_relu (if keep d then x ! b ! d / (1 - 0.6) else 0) \<and>
            (\<not> keep d \<longrightarrow> ?out ! b ! d = 0)" if "b < length idx" "d < D" for b d
    using that by (simp add: dropout_p_def leaky_relu_0)
  have "length ?out = length idx \<and>
        (\<forall>b<length idx. length (?out ! b) = D \<and>
           (\<forall>d<D. ?out ! b ! d = leaky_relu (if keep d then x ! b ! d / (1 - 0.6) else 0) \<and>
                   (\<not> keep d \<longrightarrow> ?out ! b ! d = 0)))"
    using el by simp
  with ev(2) have tr: "\<exists>out. UserEmbeds_call W True keep idx = Inr out \<and> length out = length idx \<and>
            (\<forall>b<length idx. length (out ! b) = D \<and>
               (\<forall>d<D. out ! b ! d = leaky_relu (if keep d then x ! b ! d / (1 - 0.6) else 0) \<and>
                       (\<not> keep d \<longrightarrow> out ! b ! d = 0)))"
    by blast
  have pr: "\<forall>d<D. prob_of dropout_p D (\<lambda>ks. \<not> ks ! d) = 0.6"
    by (simp add: prob_of_drop dropout_p_def)
  from ev(1) tr pr show ?thesis
    by blast
qed

lemma example_lookup:
  "embedding [[1, - 100], [3, 4], [5, - 200]] [0, 2] = Inr [[1, - 100], [5, - 200]]"
  by (simp add: embedding_def embedding_row_def)

theorem UserEmbeds_dropout_leaky_relu_witness:
  "list_all (\<lambda>r. length r = 2) [[1, - 100], [3, 4], [5, - 200 :: real]] \<and> (0 :: nat) < 2 \<and>
   embedding [[1, - 100], [3, 4], [5, - 200]] [0, 2] = Inr [[1, - 100], [5, - 200]] \<and>
   UserEmbeds_call [[1, - 100], [3, 4], [5, - 200]] False (\<lambda>c. c = 0) [0, 2] =
     Inr [[1, - 1], [5, - 2]] \<and>
   UserEmbeds_call [[1, - 100], [3, 4], [5, - 200]] True (\<lambda>c. c = 0) [0, 2] =
     Inr [[5 / 2, 0], [25 / 2, 0]] \<and>
   prob_of dropout_p 2 (\<lambda>ks. \<not> ks ! 1) = 0.6"
proof -
  let ?W = "[[1, - 100], [3, 4], [5, - 200 :: real]]"
  have r: "list_all (\<lambda>r. length r = 2) ?W" by simp
  have p: "(0 :: nat) < 2" by simp
  note inst = UserEmbeds_dropout_leaky_relu[OF r p example_lookup, of "\<lambda>c. c = 0"]
  from inst have 1: "UserEmbeds_call ?W False (\<lambda>c. c = 0) [0, 2] = Inr [[1, - 1], [5, - 2]]"
    by (simp add: leaky_relu_def)
  from inst have 3: "prob_of dropout_p 2 (\<lambda>ks. \<not> ks ! 1) = 0.6"
    by simp
  have 2: "UserEmbeds_call ?W True (\<lambda>c. c = 0) [0, 2] = Inr [[5 / 2, 0], [25 / 2, 0]]"
    by (simp add: UserEmbeds_call_def example_lookup dropout1d_def dropout_p_def leaky_relu_def)
  from r p example_lookup 1 2 3 show ?thesis
    by simp
qed





lemma T5FineTuned_init_table:
  "length (user_embeddings (T5FineTuned_init base d n init tasks ev)) =
     n_users (T5FineTuned_init base d n init tasks ev)"
  by (simp add: T5FineTuned_init_def UserEmbeds_init_def)






lemma collect_map_total:
  assumes "\<And>x. x \<in> set xs \<Longrightarrow> f x = Inr (g x)"
  shows "collect (map f xs) = Inr (map g xs)"
proof -
  from assms have "map f xs = map Inr (map g xs)"
    by simp
  then show ?thesis
    by (simp only: collect_map_Inr_id)
qed

lemma broadcast2_same:
  assumes "length xs = length ys"
    and "\<And>i. i < length xs \<Longrightarrow> f (xs ! i) (ys ! i) = Inr (g (xs ! i) (ys ! i))"
  shows "broadcast2 f xs ys = Inr (map (\<lambda>(x, y). g x y) (zip xs ys))"
proof -
  have "(\<lambda>(x, y). f x y) p = Inr ((\<lambda>(x, y). g x y) p)" if "p \<in> set (zip xs ys)" for p
  proof -
    from that obtain i where "i < length xs" "p = (xs ! i, ys ! i)"
      using assms(1) by (auto simp: in_set_zip)
    with assms(2) show ?thesis by simp
  qed
  then have "collect (map (\<lambda>(x, y). f x y) (zip xs ys)) = Inr (map (\<lambda>(x, y). g x y) (zip xs ys))"
    by (rule collect_map_total)
  with assms(1) show ?thesis
    by (simp add: broadcast2_def)
qed

lemma broadcast2_single:
  assumes "\<And>x. x \<in> set xs \<Longrightarrow> f x y = Inr (g x y)"
  shows "broadcast2 f xs [y] = Inr (map (\<lambda>x. g x y) xs)"
proof (cases "length xs = 1")
  case True
  then obtain x where xs: "xs = [x]"
    by (cases xs) auto
  with assms show ?thesis
    by (simp add: broadcast2_def)
next
  case False
  have "collect (map (\<lambda>x. f x y) xs) = Inr (map (\<lambda>x. g x y) xs)"
    using assms by (rule collect_map_total)
  with False show ?thesis
    by (simp add: broadcast2_def)
qed

lemma add_tensor3_user:
  assumes "length tok = length ue"
    and "\<And>b s. b < length tok \<Longrightarrow> s < length (tok ! b) \<Longrightarrow> length (tok ! b ! s) = length (ue ! b)"
  shows "add_tensor3 tok (unsqueeze1 ue) =
           Inr (map (\<lambda>(t, v). map (\<lambda>r. map (\<lambda>(x, y). x + y) (zip r (hd v))) t)
                  (zip tok (unsqueeze1 ue)))"
  unfolding add_tensor3_def
proof (rule broadcast2_same)
  show "length tok = length (unsqueeze1 ue)"
    using assms(1) by (simp add: unsqueeze1_def)
  fix b
  assume b: "b < length tok"
  with assms(1) have u: "unsqueeze1 ue ! b = [ue ! b]"
    by (simp add: unsqueeze1_def)
  have "broadcast2 (broadcast2 (\<lambda>x y. Inr (x + y))) (tok ! b) [ue ! b] =
        Inr (map (\<lambda>r. map (\<lambda>(x, y). x + y) (zip r (ue ! b))) (tok ! b))"
  proof (rule broadcast2_single)
    fix r
    assume "r \<in> set (tok ! b)"
    then obtain s where "s < length (tok ! b)" "r = tok ! b ! s"
      by (auto simp: in_set_conv_nth)
    with assms(2)[OF b] have "length r = length (ue ! b)"
      by simp
    then show "broadcast2 (\<lambda>x y. Inr (x + y)) r (ue ! b) =
               Inr (map (\<lambda>(x, y). x + y) (zip r (ue ! b)))"
      by (rule broadcast2_same) simp
  qed
  then show "broadcast2 (broadcast2 (\<lambda>x y. Inr (x + y))) (tok ! b) (unsqueeze1 ue ! b) =
        Inr (map (\<lambda>r. map (\<lambda>(x, y). x + y) (zip r (hd (unsqueeze1 ue ! b)))) (tok ! b))"
    by (simp add: u)
qed

text \<open>
  C8. Personalization injection looks up one vector per user, by \<open>UserEmbeds\<close> on the
  user indices shifted from 1-based to 0-based, and adds that vector to the token
  embedding at every sequence position of the user's sample: for token embeddings of shape
  (B, S, D) and user vectors of shape (B, D) it returns \<open>out\<close> of the shape of the token
  embeddings with \<open>out[b, s, d] = token_embeddings[b, s, d] + user_embedding[b, d]\<close> for
  every batch index \<open>b\<close>, sequence position \<open>s\<close> and dimension \<open>d\<close>.
\<close>

theorem inject_personalization_adds_user_vector:
  assumes "UserEmbeds_call (user_embeddings m) (training m) keep (map (\<lambda>u. u - 1) us) = Inr ue"
    and "length tok = length ue"
    and "\<forall>b<length tok. \<forall>s<length (tok ! b). length (tok ! b ! s) = length (ue ! b)"
  shows "\<exists>out. inject_personalization m keep tok us = Inr out \<and> length out = length tok \<and>
           (\<forall>b<length tok. length (out ! b) = length (tok ! b) \<and>
              (\<forall>s<length (tok ! b). length (out ! b ! s) = length (tok ! b ! s) \<and>
                 (\<forall>d<length (tok ! b ! s).
                    out ! b ! s ! d = tok ! b ! s ! d + ue ! b ! d)))"
proof -
  let ?out = "map (\<lambda>(t, v). map (\<lambda>r. map (\<lambda>(x, y). x + y) (zip r (hd v))) t)
                  (zip tok (unsqueeze1 ue))"
  have add: "add_tensor3 tok (unsqueeze1 ue) = Inr ?out"
    using assms(2,3) by (intro add_tensor3_user) auto
  have inj: "inject_personalization m keep tok us = Inr ?out"
    using assms(1) add by (simp add: inject_personalization_def)
  have len: "length ?out = length tok"
    using assms(2) by (simp add: unsqueeze1_def)
  have row: "?out ! b = map (\<lambda>r. map (\<lambda>(x, y). x + y) (zip r (ue ! b))) (tok ! b)"
    if "b < length tok" for b
    using that assms(2) by (simp add: unsqueeze1_def)
  have el: "length (?out ! b) = length (tok ! b) \<and>
              (\<forall>s<length (tok ! b). length (?out ! b ! s) = length (tok ! b ! s) \<and>
                 (\<forall>d<length (tok ! b ! s).
                    ?out ! b ! s ! d = tok ! b ! s ! d + ue ! b ! d))"
    if b: "b < length tok" for b
  proof -
    have "length (tok ! b ! s) = length (ue ! b)" if "s < length (tok ! b)" for s
      using assms(3) b that by blast
    then show ?thesis
      unfolding row[OF b] by simp
  qed
  from inj len el show ?thesis
    by blast
qed

theorem inject_personalization_adds_user_vector_witness:
  "UserEmbeds_call (user_embeddings example_model) (training example_model) (\<lambda>c. True)
     (map (\<lambda>u. u - 1) [1, 3]) = Inr [[1, - 1], [5, - 2]] \<and>
   length [[[2, 2], [3, 3], [1, 1]], [[4, 4], [1, 1], [0, 0 :: real]]] =
     length [[1, - 1], [5, - 2 :: real]] \<and>
   inject_personalization example_model (\<lambda>c. True)
     [[[2, 2], [3, 3], [1, 1]], [[4, 4], [1, 1], [0, 0]]] [1, 3] =
     Inr [[[3, 1], [4, 2], [2, 0]], [[9, 2], [6, - 1], [5, - 2]]]"
proof -
  let ?tok = "[[[2, 2], [3, 3], [1, 1]], [[4, 4], [1, 1], [0, 0 :: real]]]"
  let ?ue = "[[1, - 1], [5, - 2 :: real]]"
  have ue: "UserEmbeds_call (user_embeddings example_model) (training example_model) (\<lambda>c. True)
     (map (\<lambda>u. u - 1) [1, 3]) = Inr ?ue"
    by (simp add: example_model_def UserEmbeds_call_def embedding_def embedding_row_def
        dropout1d_def leaky_relu_def)
  have l: "length ?tok = length ?ue"
    by simp
  have sh: "\<forall>b<length ?tok. \<forall>s<length (?tok ! b). length (?tok ! b ! s) = length (?ue ! b)"
    by (simp add: All_less_Suc numeral_2_eq_2 numeral_3_eq_3)
  from inject_personalization_adds_user_vector[OF ue l sh]
  obtain out where o: "inject_personalization example_model (\<lambda>c. True) ?tok [1, 3] = Inr out"
    by blast
  have c: "inject_personalization example_model (\<lambda>c. True) ?tok [1, 3] =
     Inr [[[3, 1], [4, 2], [2, 0]], [[9, 2], [6, - 1], [5, - 2]]]"
    using ue by (simp add: inject_personalization_def add_tensor3_def broadcast2_def unsqueeze1_def)
  with o have "out = [[[3, 1], [4, 2], [2, 0]], [[9, 2], [6, - 1], [5, - 2]]]"
    by simp
  with o ue l show ?thesis
    by simp
qed

end
